theory Spec2Isabelle
  imports Complex_Main "HOL-Library.AList"
begin

section \<open>Values a caller can pass\<close>

text \<open>
  \<^verbatim>\<open>ssh.py\<close> is Python 2 and checks its arguments at run time, so the arguments of
  \<^verbatim>\<open>Ssh.run\<close> are modelled as dynamically typed values. \<^verbatim>\<open>IntType\<close> is \<^verbatim>\<open>int\<close>
  (which \<^verbatim>\<open>bool\<close> subclasses), \<^verbatim>\<open>StringType\<close> is \<^verbatim>\<open>str\<close>, \<^verbatim>\<open>ListType\<close> is \<^verbatim>\<open>list\<close>.

  Python 2 has two integer types. An \<^verbatim>\<open>int\<close> is a machine integer between
  \<^verbatim>\<open>-sys.maxint - 1\<close> and \<^verbatim>\<open>sys.maxint\<close>; a \<^verbatim>\<open>long\<close> is unbounded, is written with a
  trailing \<^verbatim>\<open>L\<close> (\<^verbatim>\<open>5L\<close>), and is what an integer outside the range of \<^verbatim>\<open>int\<close> is
  (\<^verbatim>\<open>2**63\<close>). A \<^verbatim>\<open>long\<close> is not an instance of \<^verbatim>\<open>int\<close>. \<open>PyLong n\<close> is the \<^verbatim>\<open>long\<close>
  \<open>n\<close>; \<open>PyInt n\<close> is the \<^verbatim>\<open>int\<close> \<open>n\<close> when \<open>n\<close> is in the range of \<^verbatim>\<open>int\<close>, and
  stands for the \<^verbatim>\<open>long\<close> \<open>n\<close> otherwise, as the integer \<open>n\<close> is in Python.
\<close>

datatype pyval =
    PyNone
  | PyBool bool
  | PyInt int
  | PyLong int
  | PyFloat real
  | PyStr string
  | PyList "pyval list"

text \<open>
  \<^verbatim>\<open>sys.maxint\<close>, here that of a 64-bit build of CPython 2 (a 32-bit build has
  \<^verbatim>\<open>2**31 - 1\<close>; no result below depends on the value).
\<close>

definition maxint :: int where
  "maxint = 2 ^ 63 - 1"

text \<open>Python truth value testing, as \<^verbatim>\<open>if timeout\<close> and \<^verbatim>\<open>not timeout\<close> use it.\<close>

fun truthy :: "pyval \<Rightarrow> bool" where
  "truthy PyNone = False"
| "truthy (PyBool b) = b"
| "truthy (PyInt n) = (n \<noteq> 0)"
| "truthy (PyLong n) = (n \<noteq> 0)"
| "truthy (PyFloat x) = (x \<noteq> 0)"
| "truthy (PyStr s) = (s \<noteq> [])"
| "truthy (PyList xs) = (xs \<noteq> [])"

text \<open>
  \<^verbatim>\<open>isinstance(v, IntType)\<close> and \<^verbatim>\<open>isinstance(v, StringType)\<close>. An integer is an
  \<^verbatim>\<open>int\<close> only within the range of \<^verbatim>\<open>int\<close>; a \<^verbatim>\<open>long\<close> never is.
\<close>

fun is_IntType :: "pyval \<Rightarrow> bool" where
  "is_IntType (PyInt n) = (- maxint - 1 \<le> n \<and> n \<le> maxint)"
| "is_IntType (PyBool b) = True"
| "is_IntType v = False"

fun is_StringType :: "pyval \<Rightarrow> bool" where
  "is_StringType (PyStr s) = True"
| "is_StringType v = False"

text \<open>
  \<^verbatim>\<open>time.time() - time_start < timeout\<close>: the elapsed time is a float. CPython 2 compares
  it numerically with an int, long, bool or float, and orders every number before any
  string or list and after \<^verbatim>\<open>None\<close>. Floating-point rounding is not modelled: times are reals.
\<close>

fun elapsed_lt :: "real \<Rightarrow> pyval \<Rightarrow> bool" where
  "elapsed_lt e PyNone = False"
| "elapsed_lt e (PyBool b) = (e < (if b then 1 else 0))"
| "elapsed_lt e (PyInt n) = (e < real_of_int n)"
| "elapsed_lt e (PyLong n) = (e < real_of_int n)"
| "elapsed_lt e (PyFloat x) = (e < x)"
| "elapsed_lt e (PyStr s) = True"
| "elapsed_lt e (PyList xs) = True"

section \<open>Exceptions\<close>

text \<open>
  The exception classes of the module and the built-in ones its code can raise. The
  three \<^verbatim>\<open>Ssh...\<close> exceptions carry their message, which is all the source gives them.
\<close>

datatype error =
    TypeError
  | ValueError
  | RuntimeError
  | OSError
  | IndexError
  | SshException string
  | SshCmdTimeoutException string
  | SshCmdFailedException string

section \<open>Strings\<close>

definition LF :: char where "LF = CHR 0x0A"
definition CR :: char where "CR = CHR 0x0D"

text \<open>\<^verbatim>\<open>' '.join(cmd)\<close>\<close>

fun join_sp :: "string list \<Rightarrow> string" where
  "join_sp [] = []"
| "join_sp [x] = x"
| "join_sp (x # y # ys) = x @ '' '' @ join_sp (y # ys)"

text \<open>
  \<^verbatim>\<open>s.split(sep, 1)\<close> for a one-character separator: the whole string when the
  separator does not occur, else the text before and the text after its first occurrence.
\<close>

definition split1 :: "char \<Rightarrow> string \<Rightarrow> string list" where
  "split1 sep s =
     (case dropWhile (\<lambda>c. c \<noteq> sep) s of
        [] \<Rightarrow> [s]
      | c # rest \<Rightarrow> [takeWhile (\<lambda>c. c \<noteq> sep) s, rest])"

text \<open>
  \<^verbatim>\<open>a, b = xs\<close>: unpacking raises \<^verbatim>\<open>ValueError\<close> unless \<^verbatim>\<open>xs\<close> has exactly two items.
\<close>

fun unpack2 :: "'a list \<Rightarrow> error + ('a \<times> 'a)" where
  "unpack2 [a, b] = Inr (a, b)"
| "unpack2 xs = Inl ValueError"

section \<open>Transport processes and the environment\<close>

text \<open>
  A \<^verbatim>\<open>subprocess.Popen\<close> object as the module sees it. \<open>returncode\<close> is what
  \<^verbatim>\<open>poll()\<close> reports: \<open>None\<close> while the process runs, its exit status afterwards.
  A pipe the module reads is the sequence of observations its reader will make:
  \<open>Some c\<close> when \<^verbatim>\<open>select\<close> reports the pipe readable and \<^verbatim>\<open>read(1)\<close> returns \<open>c\<close>,
  \<open>None\<close> when \<^verbatim>\<open>select\<close> reports nothing to read at that moment; at the end of the
  sequence the pipe is at end of file (\<^verbatim>\<open>select\<close> reports it readable and \<^verbatim>\<open>read(1)\<close>
  returns the empty string). \<open>has_kill\<close> is \<^verbatim>\<open>hasattr(tunnel, 'kill')\<close> (Python 2.6 and
  later); \<open>kill_raises\<close> says whether \<^verbatim>\<open>tunnel.kill()\<close> raises.
\<close>

record process =
  argv :: "string list"
  returncode :: "int option"
  has_kill :: bool
  kill_raises :: bool
  p_stdin :: string
  p_stdout :: "char option list"
  p_stderr :: "char option list"

text \<open>
  Everything outside one \<^verbatim>\<open>Ssh\<close> object: the class attribute \<^verbatim>\<open>SshTunnelPool.verbose\<close>,
  the pool's dictionary \<^verbatim>\<open>tunnels\<close> (key to process handle, in the order the dictionary
  iterates), the process objects by handle (for a handle not yet spawned: how that
  process will behave), the number of processes spawned so far, and the clock: the
  \<open>n\<close>-th call of \<^verbatim>\<open>time.time()\<close> returns \<open>clock n\<close>. A new key is put last in
  \<open>tunnels\<close>; the order of a Python 2 dictionary is arbitrary, and no result here
  depends on which key comes first. \<^verbatim>\<open>time.sleep\<close> changes nothing by itself: what the
  clock and the pipes show afterwards is in the environment already.
\<close>

record world =
  verbose :: bool
  tunnels :: "(string \<times> nat) list"
  procs :: "nat \<Rightarrow> process"
  spawned :: nat
  clock :: "nat \<Rightarrow> real"
  ticks :: nat

definition time_time :: "world \<Rightarrow> real \<times> world" where
  "time_time w = (clock w (ticks w), w\<lparr>ticks := Suc (ticks w)\<rparr>)"

section \<open>SshTunnelPool\<close>

text \<open>
  The \<^verbatim>\<open>daemon\<close> argument of the pool's methods is \<^verbatim>\<open>None\<close> or a list of strings when
  it comes from an \<^verbatim>\<open>Ssh\<close> object, and a string when \<^verbatim>\<open>__del__\<close> passes the second half
  of a key. \<^verbatim>\<open>"%s" % daemon\<close> is \<^verbatim>\<open>None\<close>, the string itself, or the list's \<^verbatim>\<open>repr\<close>
  (written here with single quotes around each item; the escapes \<^verbatim>\<open>repr\<close> adds for
  quotes, backslashes and unprintable characters are not modelled).
\<close>

datatype daemon_arg = DNone | DList "string list" | DStr string

fun repr_items :: "string list \<Rightarrow> string" where
  "repr_items [] = []"
| "repr_items [x] = [CHR 0x27] @ x @ [CHR 0x27]"
| "repr_items (x # y # ys) = [CHR 0x27] @ x @ [CHR 0x27] @ '', '' @ repr_items (y # ys)"

fun str_daemon :: "daemon_arg \<Rightarrow> string" where
  "str_daemon DNone = ''None''"
| "str_daemon (DStr s) = s"
| "str_daemon (DList xs) = ''['' @ repr_items xs @ '']''"

text \<open>\<^verbatim>\<open>key = "%s-%s" % (hostname, daemon)\<close>\<close>

definition pool_key :: "string \<Rightarrow> daemon_arg \<Rightarrow> string" where
  "pool_key hostname daemon = hostname @ ''-'' @ str_daemon daemon"

fun daemon_of :: "string list option \<Rightarrow> daemon_arg" where
  "daemon_of None = DNone"
| "daemon_of (Some xs) = DList xs"

text \<open>\<^verbatim>\<open>if xs: opts = opts + xs\<close> for an optional list of strings.\<close>

fun add_opts :: "string list \<Rightarrow> string list option \<Rightarrow> string list" where
  "add_opts opts None = opts"
| "add_opts opts (Some xs) = (if xs \<noteq> [] then opts @ xs else opts)"

text \<open>
  \<^verbatim>\<open>get_tunnel\<close>: the registered process of the key, or a new one, spawned with the
  composed command line and registered. (\<^verbatim>\<open>Popen\<close> failing to start the executable is
  not modelled.)
\<close>

definition get_tunnel ::
  "string \<Rightarrow> string list option \<Rightarrow> string list option \<Rightarrow> world \<Rightarrow> nat \<times> world" where
  "get_tunnel hostname daemon ssh_options w =
     (let key = pool_key hostname (daemon_of daemon) in
      case map_of (tunnels w) key of
        Some t \<Rightarrow> (t, w)
      | None \<Rightarrow>
         (let opts = [''ssh'', ''-x'', ''-T'', ''-oBatchMode=yes''];
              opts = (if verbose w then opts @ [''-vvv''] else opts);
              opts = add_opts opts ssh_options;
              opts = opts @ [hostname];
              opts = add_opts opts daemon;
              t = spawned w
          in (t, w\<lparr>tunnels := AList.update key t (tunnels w),
                    procs := (procs w)(t := (procs w t)\<lparr>argv := opts\<rparr>),
                    spawned := Suc t\<rparr>)))"

text \<open>
  \<^verbatim>\<open>tunnel.kill()\<close>: raises when the process object says so, else the process is
  killed (a running process then reports the status of a process killed by signal 9).
\<close>

definition popen_kill :: "process \<Rightarrow> error + process" where
  "popen_kill p =
     (if kill_raises p then Inl OSError
      else Inr (p\<lparr>returncode := (case returncode p of None \<Rightarrow> Some (- 9) | Some r \<Rightarrow> Some r)\<rparr>))"

text \<open>
  \<^verbatim>\<open>kill_tunnel\<close>: nothing for a key that is not registered; else the process is killed
  when it has a \<^verbatim>\<open>kill\<close> method, an exception of \<^verbatim>\<open>kill\<close> is caught and logged, and the
  key is deleted from the dictionary.
\<close>

definition kill_tunnel :: "string \<Rightarrow> daemon_arg \<Rightarrow> world \<Rightarrow> world" where
  "kill_tunnel hostname daemon w =
     (let key = pool_key hostname daemon in
      case map_of (tunnels w) key of
        None \<Rightarrow> w
      | Some t \<Rightarrow>
         (let w1 = (if has_kill (procs w t)
                    then (case popen_kill (procs w t) of
                            Inl e \<Rightarrow> w
                          | Inr p \<Rightarrow> w\<lparr>procs := (procs w)(t := p)\<rparr>)
                    else w)
          in w1\<lparr>tunnels := AList.delete key (tunnels w1)\<rparr>))"

text \<open>
  \<^verbatim>\<open>__del__\<close>: \<^verbatim>\<open>for key in self.tunnels\<close> iterates over the dictionary itself. The
  iterator remembers the dictionary's size when the loop starts, and every step of it
  (also the one that would end the loop) first compares that size with the current one
  and raises \<^verbatim>\<open>RuntimeError\<close> (dictionary changed size during iteration) when they
  differ. \<open>del_loop used keys w\<close> is the loop with the remembered size and the keys the
  iterator has not reached yet. The result is the exception that leaves \<^verbatim>\<open>__del__\<close>
  (which the interpreter reports and ignores), if any, and the environment.
\<close>

fun del_loop :: "nat \<Rightarrow> string list \<Rightarrow> world \<Rightarrow> error option \<times> world" where
  "del_loop used [] w =
     (if length (tunnels w) \<noteq> used then (Some RuntimeError, w) else (None, w))"
| "del_loop used (key # keys) w =
     (if length (tunnels w) \<noteq> used then (Some RuntimeError, w)
      else case unpack2 (split1 (CHR ''-'') key) of
             Inl e \<Rightarrow> (Some e, w)
           | Inr (hostname, daemon) \<Rightarrow> del_loop used keys (kill_tunnel hostname (DStr daemon) w))"

definition pool_del :: "world \<Rightarrow> error option \<times> world" where
  "pool_del w = del_loop (length (tunnels w)) (map fst (tunnels w)) w"

section \<open>Regular expressions of the module\<close>

text \<open>
  The result of \<^verbatim>\<open>m = re.search(pattern, text, re.MULTILINE)\<close> followed by
  \<^verbatim>\<open>m.group(1)\<close>: no match; a match whose group 1 is a string, or \<^verbatim>\<open>None\<close> when the
  group took no part in the match; a match of a pattern that has no group 1, where
  \<^verbatim>\<open>m.group(1)\<close> raises \<^verbatim>\<open>IndexError\<close>.
\<close>

datatype re_match = NoMatch | Match "string option" | MatchNoGroup

text \<open>What is left of a text after a literal at its start, if it starts with it.\<close>

fun strip_prefix :: "string \<Rightarrow> string \<Rightarrow> string option" where
  "strip_prefix [] s = Some s"
| "strip_prefix (p # ps) [] = None"
| "strip_prefix (p # ps) (c # cs) = (if p = c then strip_prefix ps cs else None)"

text \<open>\<^verbatim>\<open>re.search\<close> tries the pattern at every position, from the left.\<close>

fun first_suffix :: "(string \<Rightarrow> 'a option) \<Rightarrow> string \<Rightarrow> 'a option" where
  "first_suffix f [] = f []"
| "first_suffix f (c # cs) = (case f (c # cs) of Some r \<Rightarrow> Some r | None \<Rightarrow> first_suffix f cs)"

text \<open>\<^verbatim>\<open>\d\<close> on a byte string: the ten ASCII digits.\<close>

definition is_digit :: "char \<Rightarrow> bool" where
  "is_digit c = (c \<in> set ''0123456789'')"

text \<open>
  The shell-mode pattern \<^verbatim>\<open>(RET=\d+)\n\<close> at one position: the literal \<^verbatim>\<open>RET=\<close>, then
  \<^verbatim>\<open>\d+\<close>, which is greedy and takes every digit that follows, at least one, then a
  newline. (Giving digits back cannot help: the character wanted next is a newline, and
  every character given back is a digit.) The result is group 1. The pattern has no
  \<^verbatim>\<open>^\<close> or \<^verbatim>\<open>$\<close>, so \<^verbatim>\<open>re.MULTILINE\<close> changes nothing for it.
\<close>

definition match_ret_here :: "string \<Rightarrow> string option" where
  "match_ret_here s =
     (case strip_prefix ''RET='' s of
        None \<Rightarrow> None
      | Some rest \<Rightarrow>
         (let ds = takeWhile is_digit rest in
          if ds \<noteq> [] \<and> strip_prefix [LF] (dropWhile is_digit rest) \<noteq> None
          then Some (''RET='' @ ds) else None))"

definition search_ret :: "string \<Rightarrow> re_match" where
  "search_ret s = (case first_suffix match_ret_here s of None \<Rightarrow> NoMatch | Some g \<Rightarrow> Match (Some g))"

text \<open>
  The values shell mode can leave in \<open>retval\<close> after an exchange: nothing, or \<^verbatim>\<open>RET=\<close>
  followed by digits, at least one.
\<close>

definition ret_value :: "string option \<Rightarrow> bool" where
  "ret_value r =
     (case r of
        None \<Rightarrow> True
      | Some g \<Rightarrow> (case strip_prefix ''RET='' g of
                     None \<Rightarrow> False
                   | Some ds \<Rightarrow> ds \<noteq> [] \<and> list_all is_digit ds))"

text \<open>
  The three patterns searched in a line of stderr (without flags, so \<^verbatim>\<open>.\<close> is any
  character but a newline): \<^verbatim>\<open>Host key verification failed.\<close>,
  \<^verbatim>\<open>Could not resolve hostname .*: Name or service not known\<close> and
  \<^verbatim>\<open>connect to host .*: Connection timed out\<close>.
\<close>

text \<open>\<^verbatim>\<open>.*lit\<close> at one position: the literal, here or after characters that are no newline.\<close>

fun dotstar_then :: "string \<Rightarrow> string \<Rightarrow> bool" where
  "dotstar_then lit [] = (strip_prefix lit [] \<noteq> None)"
| "dotstar_then lit (c # cs) = (strip_prefix lit (c # cs) \<noteq> None \<or> (c \<noteq> LF \<and> dotstar_then lit cs))"

definition found :: "(string \<Rightarrow> bool) \<Rightarrow> string \<Rightarrow> bool" where
  "found f s = (first_suffix (\<lambda>t. if f t then Some () else None) s \<noteq> None)"

text \<open>Whether a text occurs in another.\<close>

definition occurs_in :: "string \<Rightarrow> string \<Rightarrow> bool" where
  "occurs_in needle s = found (\<lambda>t. strip_prefix needle t \<noteq> None) s"

definition host_key_failed :: "string \<Rightarrow> bool" where
  "host_key_failed line =
     found (\<lambda>t. case strip_prefix ''Host key verification failed'' t of
                  Some (c # cs) \<Rightarrow> c \<noteq> LF
                | _ \<Rightarrow> False) line"

definition unknown_host :: "string \<Rightarrow> bool" where
  "unknown_host line =
     found (\<lambda>t. case strip_prefix ''Could not resolve hostname '' t of
                  Some rest \<Rightarrow> dotstar_then '': Name or service not known'' rest
                | None \<Rightarrow> False) line"

definition connect_timed_out :: "string \<Rightarrow> bool" where
  "connect_timed_out line =
     found (\<lambda>t. case strip_prefix ''connect to host '' t of
                  Some rest \<Rightarrow> dotstar_then '': Connection timed out'' rest
                | None \<Rightarrow> False) line"

text \<open>
  The completion signal as the specification words it, for comparison with
  \<open>search_ret\<close>: the buffer has a line that begins with \<^verbatim>\<open>RET=\<close> followed by digits and
  a newline. \<open>bol\<close> says whether the position is the beginning of a line.
\<close>

fun ret_line_from :: "bool \<Rightarrow> string \<Rightarrow> bool" where
  "ret_line_from bol [] = False"
| "ret_line_from bol (c # cs) =
     ((bol \<and> match_ret_here (c # cs) \<noteq> None) \<or> ret_line_from (c = LF) cs)"

definition spec_ret_line :: "string \<Rightarrow> bool" where
  "spec_ret_line buf = ret_line_from True buf"

section \<open>Ssh\<close>

text \<open>
  An \<^verbatim>\<open>Ssh\<close> object. \<open>match\<close> stands for the object's pattern as \<^verbatim>\<open>_communicate\<close> uses
  it: the function from a text to the result of searching the pattern in it. It is
  read in daemon mode only, where \<^verbatim>\<open>__init__\<close> requires a pattern. \<open>stdout\<close> and
  \<open>stderr\<close> are \<^verbatim>\<open>None\<close> until the first \<^verbatim>\<open>run\<close>, which makes them strings before
  anything reads them; they are strings here.
\<close>

record ssh =
  hostname :: string
  daemon :: "string list option"
  match :: "string \<Rightarrow> re_match"
  ssh_options :: "string list option"
  retval :: "string option"
  stdout :: string
  stderr :: string

text \<open>\<^verbatim>\<open>_check_is_list_of_strings\<close>: raises \<^verbatim>\<open>TypeError\<close> or returns nothing.\<close>

fun check_is_list_of_strings :: "pyval \<Rightarrow> error + unit" where
  "check_is_list_of_strings (PyList xs) = (if list_all is_StringType xs then Inr () else Inl TypeError)"
| "check_is_list_of_strings obj = Inl TypeError"

text \<open>The strings of a list that passed the check.\<close>

fun str_items :: "pyval \<Rightarrow> string list" where
  "str_items (PyList (PyStr x # xs)) = x # str_items (PyList xs)"
| "str_items obj = []"

text \<open>
  \<^verbatim>\<open>_noblock_read_line\<close>: characters are read one at a time while \<^verbatim>\<open>select\<close> reports
  the pipe readable. The loop ends at end of file, at a newline, and when \<^verbatim>\<open>select\<close>
  reports nothing to read; a carriage return is skipped. What was read so far is
  returned, whichever way the loop ended. The second result is what is left of the pipe.
\<close>

fun read_loop :: "char option list \<Rightarrow> string \<Rightarrow> string \<times> char option list" where
  "read_loop [] line = (line, [])"
| "read_loop (None # fh) line = (line, fh)"
| "read_loop (Some c # fh) line =
     (if c = CR then read_loop fh line
      else if c = LF then (line, fh)
      else read_loop fh (line @ [c]))"

definition noblock_read_line :: "char option list \<Rightarrow> string \<times> char option list" where
  "noblock_read_line fh = read_loop fh []"

text \<open>How one pass through the body of the polling loop ends.\<close>

datatype step = Continue | Break | Raise error

text \<open>The exceptions that the body of the polling loop raises.\<close>

definition loop_error :: "error \<Rightarrow> bool" where
  "loop_error e = (case e of IndexError \<Rightarrow> True | SshException m \<Rightarrow> True | _ \<Rightarrow> False)"

text \<open>\<^verbatim>\<open>self.stdout += line + '\n'\<close> under \<^verbatim>\<open>if line != ''\<close>.\<close>

definition add_line :: "string \<Rightarrow> string \<Rightarrow> string" where
  "add_line buf line = (if line \<noteq> [] then buf @ line @ [LF] else buf)"

definition SQ :: char where "SQ = CHR 0x27"
definition DQ :: char where "DQ = CHR 0x22"

text \<open>
  The body of the \<^verbatim>\<open>while\<close> loop of \<^verbatim>\<open>_communicate\<close>, for the process with handle \<open>t\<close>:
  one line is read from each pipe; when both are empty the loop sleeps and continues;
  else the lines are appended, each with a newline, the pattern is searched in the
  whole of \<open>stdout\<close>, and only when it is not found the line of stderr is searched for
  the three known failures, each of which releases the tunnel and raises.
\<close>

definition poll_iter :: "ssh \<Rightarrow> nat \<Rightarrow> (string \<Rightarrow> re_match) \<Rightarrow> world \<Rightarrow> step \<times> ssh \<times> world" where
  "poll_iter s t matcher w =
     (let p = procs w t;
          (line_out, out') = noblock_read_line (p_stdout p);
          (line_err, err') = noblock_read_line (p_stderr p);
          w1 = w\<lparr>procs := (procs w)(t := p\<lparr>p_stdout := out', p_stderr := err'\<rparr>)\<rparr>
      in if line_out = [] \<and> line_err = [] then (Continue, s, w1)
         else
          (let s1 = s\<lparr>stdout := add_line (stdout s) line_out,
                       stderr := add_line (stderr s) line_err\<rparr>
           in case matcher (stdout s1) of
                Match g \<Rightarrow> (Break, s1\<lparr>retval := g\<rparr>, w1)
              | MatchNoGroup \<Rightarrow> (Raise IndexError, s1, w1)
              | NoMatch \<Rightarrow>
                 (if host_key_failed line_err
                  then (Raise (SshException (''Host key verification failed against '' @ hostname s
                                  @ '' (run '' @ [SQ] @ ''spvirtenvctl probe'' @ [SQ] @ ''!)'')),
                        s1, kill_tunnel (hostname s) (daemon_of (daemon s)) w1)
                  else if unknown_host line_err
                  then (Raise (SshException (''Unknown host '' @ hostname s)),
                        s1, kill_tunnel (hostname s) (daemon_of (daemon s)) w1)
                  else if connect_timed_out line_err
                  then (Raise (SshException (''Timed-out while connecting to '' @ hostname s)),
                        s1, kill_tunnel (hostname s) (daemon_of (daemon s)) w1)
                  else (Continue, s1, w1))))"

text \<open>
  The loop condition \<^verbatim>\<open>not finished and (not timeout or (time.time() - time_start < timeout))\<close>,
  where \<^verbatim>\<open>finished\<close> is false whenever it is evaluated (the only assignment of true is
  followed by \<^verbatim>\<open>break\<close>). The clock is read only for a true \<^verbatim>\<open>timeout\<close>.
\<close>

definition loop_cond :: "pyval \<Rightarrow> real \<Rightarrow> world \<Rightarrow> bool \<times> world" where
  "loop_cond timeout time_start w =
     (if \<not> truthy timeout then (True, w)
      else (let (now, w') = time_time w in (elapsed_lt (now - time_start) timeout, w')))"

text \<open>
  The \<^verbatim>\<open>while\<close> loop. It need not end, so it runs on fuel, one unit for each evaluation
  of the loop condition; \<open>None\<close> means the fuel ran out with the loop still running.
  \<open>Inr ()\<close> is the loop left by its condition or by \<^verbatim>\<open>break\<close>, \<open>Inl e\<close> an exception
  raised in its body.
\<close>

fun poll_loop ::
  "nat \<Rightarrow> ssh \<Rightarrow> nat \<Rightarrow> (string \<Rightarrow> re_match) \<Rightarrow> pyval \<Rightarrow> real \<Rightarrow> world
    \<Rightarrow> ((error + unit) \<times> ssh \<times> world) option" where
  "poll_loop 0 s t matcher timeout time_start w = None"
| "poll_loop (Suc n) s t matcher timeout time_start w =
     (case loop_cond timeout time_start w of
        (False, w1) \<Rightarrow> Some (Inr (), s, w1)
      | (True, w1) \<Rightarrow>
         (case poll_iter s t matcher w1 of
            (Continue, s2, w2) \<Rightarrow> poll_loop n s2 t matcher timeout time_start w2
          | (Break, s2, w2) \<Rightarrow> Some (Inr (), s2, w2)
          | (Raise e, s2, w2) \<Rightarrow> Some (Inl e, s2, w2)))"

text \<open>\<^verbatim>\<open>if tunnel.poll()\<close>: true for a process that has exited with a status other than 0.\<close>

fun poll_truthy :: "int option \<Rightarrow> bool" where
  "poll_truthy None = False"
| "poll_truthy (Some r) = (r \<noteq> 0)"

text \<open>
  The check after the loop: \<^verbatim>\<open>if timeout and (time.time() - time_start >= timeout)\<close>,
  then the tunnel is released and the timeout exception raised.
\<close>

definition after_loop :: "ssh \<Rightarrow> string \<Rightarrow> pyval \<Rightarrow> real \<Rightarrow> world \<Rightarrow> (error + unit) \<times> ssh \<times> world" where
  "after_loop s string timeout time_start w =
     (if truthy timeout
      then (let (now, w') = time_time w in
            if \<not> elapsed_lt (now - time_start) timeout
            then (Inl (SshCmdTimeoutException
                        (''Timed-out while waiting for reply for command ['' @ string @ '']'')),
                  s, kill_tunnel (hostname s) (daemon_of (daemon s)) w')
            else (Inr (), s, w'))
      else (Inr (), s, w))"

text \<open>
  The first lines of \<^verbatim>\<open>_communicate\<close>: the tunnel of the object's key is taken from
  the pool; when \<^verbatim>\<open>tunnel.poll()\<close> is true the key is released and a tunnel is taken
  again.
\<close>

definition open_tunnel :: "ssh \<Rightarrow> world \<Rightarrow> nat \<times> world" where
  "open_tunnel s w =
     (let (t, w1) = get_tunnel (hostname s) (daemon s) (ssh_options s) w
      in if poll_truthy (returncode (procs w1 t))
         then get_tunnel (hostname s) (daemon s) (ssh_options s)
                (kill_tunnel (hostname s) (daemon_of (daemon s)) w1)
         else (t, w1))"

text \<open>\<^verbatim>\<open>tunnel.stdin.write(string + '\n')\<close> (an error of the write itself is not modelled).\<close>

definition send_line :: "nat \<Rightarrow> string \<Rightarrow> world \<Rightarrow> world" where
  "send_line t string w =
     w\<lparr>procs := (procs w)(t := (procs w t)\<lparr>p_stdin := p_stdin (procs w t) @ string @ [LF]\<rparr>)\<rparr>"

text \<open>
  \<^verbatim>\<open>_communicate\<close>: the tunnel is opened, the string and a newline are written to its
  stdin, the start time is read, the loop runs, and the check after the loop is made
  unless an exception left the loop.
\<close>

definition communicate ::
  "nat \<Rightarrow> ssh \<Rightarrow> string \<Rightarrow> (string \<Rightarrow> re_match) \<Rightarrow> pyval \<Rightarrow> world
    \<Rightarrow> ((error + unit) \<times> ssh \<times> world) option" where
  "communicate fuel s string matcher timeout w =
     (let (t, w2) = open_tunnel s w;
          w3 = send_line t string w2;
          (time_start, w4) = time_time w3
      in case poll_loop fuel s t matcher timeout time_start w4 of
           None \<Rightarrow> None
         | Some (Inl e, s', w') \<Rightarrow> Some (Inl e, s', w')
         | Some (Inr u, s', w') \<Rightarrow> Some (after_loop s' string timeout time_start w'))"

text \<open>\<^verbatim>\<open>if self.daemon\<close>: a list that is not empty.\<close>

fun has_daemon :: "string list option \<Rightarrow> bool" where
  "has_daemon None = False"
| "has_daemon (Some xs) = (xs \<noteq> [])"

text \<open>The string \<^verbatim>\<open>run\<close> sends in shell mode.\<close>

definition shell_string :: "string list \<Rightarrow> string" where
  "shell_string cmd =
     join_sp cmd @ '' && echo '' @ [DQ] @ ''RET='' @ [DQ] @ ''$? || echo '' @ [DQ] @ ''RET='' @ [DQ] @ ''$?''"

text \<open>
  What \<^verbatim>\<open>run\<close> does in shell mode after \<^verbatim>\<open>_communicate\<close> has returned: no recorded
  value is an \<^verbatim>\<open>SshException\<close>; else the value is split at its first \<^verbatim>\<open>=\<close>, the second
  part becomes \<open>retval\<close>, and a \<open>retval\<close> other than the string \<^verbatim>\<open>0\<close> is an
  \<^verbatim>\<open>SshCmdFailedException\<close> (stdout and stderr are logged before it is raised).
\<close>

definition shell_result :: "ssh \<Rightarrow> string \<Rightarrow> world \<Rightarrow> (error + string) \<times> ssh \<times> world" where
  "shell_result s str w =
     (case retval s of
        None \<Rightarrow> (Inl (SshException (''Failed to parse return value from output of ['' @ str @ '']'')), s, w)
      | Some r \<Rightarrow>
         (case unpack2 (split1 (CHR ''='') r) of
            Inl e \<Rightarrow> (Inl e, s, w)
          | Inr (u, code) \<Rightarrow>
             (let s1 = s\<lparr>retval := Some code\<rparr> in
              if code \<noteq> ''0''
              then (Inl (SshCmdFailedException
                          (''An error occured while executing ['' @ str @ ''] on ['' @ hostname s
                             @ '']. Return value was '' @ code)), s1, w)
              else (Inr (stdout s1), s1, w))))"

text \<open>
  \<^verbatim>\<open>run\<close>. The result is \<open>None\<close> when the fuel of the polling loop ran out, else the
  exception raised or the string returned, with the object and the environment as the
  call left them.
\<close>

definition run ::
  "nat \<Rightarrow> ssh \<Rightarrow> pyval \<Rightarrow> pyval \<Rightarrow> world \<Rightarrow> ((error + string) \<times> ssh \<times> world) option" where
  "run fuel s cmd timeout w =
     (case check_is_list_of_strings cmd of
        Inl e \<Rightarrow> Some (Inl e, s, w)
      | Inr u \<Rightarrow>
         if truthy timeout \<and> \<not> is_IntType timeout then Some (Inl TypeError, s, w)
         else
          (let s0 = s\<lparr>retval := None, stdout := [], stderr := []\<rparr> in
           if has_daemon (daemon s0)
           then (case communicate fuel s0 (join_sp (str_items cmd)) (match s0) timeout w of
                   None \<Rightarrow> None
                 | Some (Inl e, s', w') \<Rightarrow> Some (Inl e, s', w')
                 | Some (Inr u, s', w') \<Rightarrow> Some (Inr (stdout s'), s', w'))
           else (case communicate fuel s0 (shell_string (str_items cmd)) search_ret timeout w of
                   None \<Rightarrow> None
                 | Some (Inl e, s', w') \<Rightarrow> Some (Inl e, s', w')
                 | Some (Inr u, s', w') \<Rightarrow> Some (shell_result s' (shell_string (str_items cmd)) w'))))"

text \<open>\<^verbatim>\<open>kill\<close>\<close>

definition kill :: "ssh \<Rightarrow> world \<Rightarrow> world" where
  "kill s w = kill_tunnel (hostname s) (daemon_of (daemon s)) w"

section \<open>Concrete objects and environments\<close>

text \<open>
  A running process whose pipes deliver the given observations, and an environment
  with an empty pool in which every process spawned is that process.
\<close>

definition proc_of :: "int option \<Rightarrow> char option list \<Rightarrow> char option list \<Rightarrow> process" where
  "proc_of rc out err =
     \<lparr>argv = [], returncode = rc, has_kill = True, kill_raises = False,
      p_stdin = [], p_stdout = out, p_stderr = err\<rparr>"

definition world_of :: "process \<Rightarrow> (nat \<Rightarrow> real) \<Rightarrow> world" where
  "world_of p clk =
     \<lparr>verbose = False, tunnels = [], procs = (\<lambda>n. p), spawned = 0, clock = clk, ticks = 0\<rparr>"

text \<open>A clock that advances by one second from one reading to the next.\<close>

definition tick_clock :: "nat \<Rightarrow> real" where
  "tick_clock n = real n"

text \<open>An \<^verbatim>\<open>Ssh('foo')\<close> object: shell mode, no extra options.\<close>

definition shell_foo :: ssh where
  "shell_foo =
     \<lparr>hostname = ''foo'', daemon = None, match = (\<lambda>s. NoMatch), ssh_options = None,
      retval = None, stdout = [], stderr = []\<rparr>"

text \<open>The command lists \<^verbatim>\<open>['true']\<close> and \<^verbatim>\<open>['false']\<close>.\<close>

definition true_cmd :: pyval where
  "true_cmd = PyList [PyStr ''true'']"

definition false_cmd :: pyval where
  "false_cmd = PyList [PyStr ''false'']"

text \<open>
  A clock whose first reading is 0, whose second is half a second later and whose later
  readings are a second and a half after the first.
\<close>

definition late_clock :: "nat \<Rightarrow> real" where
  "late_clock n = (if n = 0 then 0 else if n = 1 then 1 / 2 else 3 / 2)"

text \<open>
  A clock that is set back: the second reading is one second after the first, every
  other reading equals the first. (\<^verbatim>\<open>time.time()\<close> is the system's wall clock, which
  can be set back between two calls.)
\<close>

definition back_clock :: "nat \<Rightarrow> real" where
  "back_clock n = (if n = 1 then 1 else 0)"

text \<open>The remote shell answers \<^verbatim>\<open>RET=0\<close>; the clock is \<open>late_clock\<close>.\<close>

definition ret0_world :: world where
  "ret0_world = world_of (proc_of None (map Some (''RET=0'' @ [LF])) []) late_clock"

text \<open>
  The pool holds the tunnel of \<open>shell_foo\<close>, whose process has exited with status 0;
  every other process runs.
\<close>

definition exited0_world :: world where
  "exited0_world =
     \<lparr>verbose = False, tunnels = [(''foo-None'', 0)],
      procs = (\<lambda>n. if n = 0 then proc_of (Some 0) [] [] else proc_of None [] []),
      spawned = 1, clock = tick_clock, ticks = 0\<rparr>"

text \<open>A pool with two tunnels, to the hosts \<^verbatim>\<open>foo\<close> and \<^verbatim>\<open>bar\<close>.\<close>

definition two_tunnels :: world where
  "two_tunnels =
     snd (get_tunnel ''bar'' None None
       (snd (get_tunnel ''foo'' None None (world_of (proc_of None [] []) tick_clock))))"

text \<open>
  The tunnel of \<open>shell_foo\<close>, with \<^verbatim>\<open>ab\<close> on its stdout, then nothing to read for the
  moment, then \<^verbatim>\<open>c\<close> and a newline.
\<close>

definition partial_world :: world where
  "partial_world =
     snd (get_tunnel ''foo'' None None
       (world_of (proc_of None [Some CHR ''a'', Some CHR ''b'', None, Some CHR ''c'', Some LF] [])
          tick_clock))"

text \<open>
  The remote command prints \<^verbatim>\<open>boom\<close> on stdout and \<^verbatim>\<open>oops\<close> on stderr and exits
  with status 1.
\<close>

definition boom_world :: world where
  "boom_world =
     world_of (proc_of None (map Some (''boom'' @ [LF] @ ''RET=1'' @ [LF])) (map Some (''oops'' @ [LF])))
       tick_clock"

section \<open>The pool: release of a key\<close>

lemma map_of_delete_same: "map_of (AList.delete k al) k = None"
  by (simp add: AList.delete_conv')

lemma kill_tunnel_tunnels:
  "tunnels (kill_tunnel h d w) = AList.delete (pool_key h d) (tunnels w)"
proof (cases "map_of (tunnels w) (pool_key h d)")
  case None
  then have "pool_key h d \<notin> fst ` set (tunnels w)"
    by (simp add: map_of_eq_None_iff)
  with None show ?thesis
    by (simp add: kill_tunnel_def)
next
  case (Some t)
  then show ?thesis
    by (simp add: kill_tunnel_def Let_def split: sum.splits)
qed

lemma kill_tunnel_absent:
  "map_of (tunnels w) (pool_key h d) = None \<Longrightarrow> kill_tunnel h d w = w"
  by (simp add: kill_tunnel_def)

lemma kill_tunnel_unregistered:
  "map_of (tunnels (kill_tunnel h d w)) (pool_key h d) = None"
  by (simp add: kill_tunnel_tunnels map_of_delete_same)

text \<open>
  C9. Release is idempotent. \<open>kill_tunnel\<close> has no exception among its results (the one
  call that can raise, \<^verbatim>\<open>tunnel.kill()\<close>, is inside its \<^verbatim>\<open>try\<close>); on a key with no
  registered process it leaves the environment as it is; and a second release of the
  same key right after the first changes nothing more, so the registry (and all the
  rest) is as after one release.
\<close>

theorem kill_tunnel_idempotent:
  "(map_of (tunnels w) (pool_key h d) = None \<longrightarrow> kill_tunnel h d w = w)
   \<and> kill_tunnel h d (kill_tunnel h d w) = kill_tunnel h d w"
  using kill_tunnel_absent kill_tunnel_unregistered by blast

theorem kill_tunnel_idempotent_witness:
  "map_of (tunnels two_tunnels) (pool_key ''baz'' DNone) = None
   \<and> kill_tunnel ''baz'' DNone two_tunnels = two_tunnels
   \<and> tunnels (kill_tunnel ''foo'' DNone two_tunnels) = [(''bar-None'', 1)]
   \<and> kill_tunnel ''foo'' DNone (kill_tunnel ''foo'' DNone two_tunnels)
       = kill_tunnel ''foo'' DNone two_tunnels"
proof -
  have a: "map_of (tunnels two_tunnels) (pool_key ''baz'' DNone) = None"
    by code_simp
  have b: "kill_tunnel ''baz'' DNone two_tunnels = two_tunnels"
    by (rule kill_tunnel_idempotent [of two_tunnels "''baz''" DNone, THEN conjunct1, rule_format, OF a])
  have c: "tunnels (kill_tunnel ''foo'' DNone two_tunnels) = [(''bar-None'', 1)]"
    by code_simp
  have d: "kill_tunnel ''foo'' DNone (kill_tunnel ''foo'' DNone two_tunnels)
       = kill_tunnel ''foo'' DNone two_tunnels"
    by (rule kill_tunnel_idempotent [of two_tunnels "''foo''" DNone, THEN conjunct2])
  from a b c d show ?thesis
    by (intro conjI)
qed

section \<open>The pool: destruction\<close>

lemma split1_found:
  assumes "sep \<in> set k"
  shows "\<exists>a b. split1 sep k = [a, b] \<and> k = a @ sep # b"
proof -
  from assms have ne: "dropWhile (\<lambda>c. c \<noteq> sep) k \<noteq> []"
    by (simp add: dropWhile_eq_Nil_conv) 
  then obtain c rest where d: "dropWhile (\<lambda>c. c \<noteq> sep) k = c # rest"
    by (cases "dropWhile (\<lambda>c. c \<noteq> sep) k") simp_all
  from ne have "\<not> (hd (dropWhile (\<lambda>c. c \<noteq> sep) k) \<noteq> sep)"
    by (rule hd_dropWhile)
  with d have c: "c = sep" by simp
  have "k = takeWhile (\<lambda>c. c \<noteq> sep) k @ dropWhile (\<lambda>c. c \<noteq> sep) k"
    by simp
  with d c have k: "k = takeWhile (\<lambda>c. c \<noteq> sep) k @ sep # rest"
    by simp
  have s: "split1 sep k = [takeWhile (\<lambda>c. c \<noteq> sep) k, rest]"
    by (simp add: split1_def d)
  from s k show ?thesis by blast
qed

lemma del_loop_changed:
  "length (tunnels w) \<noteq> used \<Longrightarrow> del_loop used keys w = (Some RuntimeError, w)"
  by (cases keys) simp_all

text \<open>
  C8 fails on the code. \<open>pool_del\<close> releases the first key only: releasing it changes
  the size of the dictionary the loop iterates over, so the next step of the iteration
  raises \<^verbatim>\<open>RuntimeError\<close> and every other tunnel stays registered, with its process
  untouched. This holds for every pool whose keys are distinct and have the form
  \<^verbatim>\<open>hostname-daemon\<close>, as the keys \<open>get_tunnel\<close> registers are; the docstring of
  \<^verbatim>\<open>__del__\<close> says that all tunnels are closed.
\<close>

theorem pool_del_first_key_only:
  assumes "tunnels w = (k, t) # rest" and "k \<notin> fst ` set rest" and "CHR ''-'' \<in> set k"
  shows "fst (pool_del w) = Some RuntimeError \<and> tunnels (snd (pool_del w)) = rest"
proof -
  from split1_found [OF assms(3)] obtain a b
    where s: "split1 (CHR ''-'') k = [a, b]" and k: "k = a @ CHR ''-'' # b"
    by (elim exE conjE)
  have key: "pool_key a (DStr b) = k"
    by (simp add: pool_key_def k)
  have "tunnels (kill_tunnel a (DStr b) w) = AList.delete k (tunnels w)"
    by (simp only: kill_tunnel_tunnels key)
  also have "\<dots> = AList.delete k rest"
    by (simp add: assms(1))
  also have "\<dots> = rest"
    using assms(2) by (rule AList.delete_id)
  finally have tw: "tunnels (kill_tunnel a (DStr b) w) = rest" .
  then have ch: "length (tunnels (kill_tunnel a (DStr b) w)) \<noteq> Suc (length rest)"
    by simp
  have "pool_del w = del_loop (Suc (length rest)) (map fst rest) (kill_tunnel a (DStr b) w)"
    by (simp add: pool_del_def assms(1) s)
  also have "\<dots> = (Some RuntimeError, kill_tunnel a (DStr b) w)"
    using ch by (rule del_loop_changed)
  finally show ?thesis
    by (simp add: tw)
qed

theorem pool_del_first_key_only_witness:
  "tunnels two_tunnels = (''foo-None'', 0) # [(''bar-None'', 1)]
   \<and> ''foo-None'' \<notin> fst ` set [(''bar-None'', 1::nat)]
   \<and> CHR ''-'' \<in> set ''foo-None''
   \<and> fst (pool_del two_tunnels) = Some RuntimeError
   \<and> tunnels (snd (pool_del two_tunnels)) = [(''bar-None'', 1)]"
proof -
  have a: "tunnels two_tunnels = (''foo-None'', 0) # [(''bar-None'', 1)]"
    by code_simp
  have b: "''foo-None'' \<notin> fst ` set [(''bar-None'', 1::nat)]"
    by simp
  have c: "CHR ''-'' \<in> set ''foo-None''"
    by simp
  from pool_del_first_key_only [OF a b c] a b c show ?thesis
    by (intro conjI) (elim conjE, assumption)+
qed

section \<open>The completion pattern of shell mode\<close>

lemma strip_prefix_iff: "strip_prefix p s = Some r \<longleftrightarrow> s = p @ r"
  by (induction p s rule: strip_prefix.induct) auto

lemma first_suffix_Some:
  "first_suffix f s = Some g \<Longrightarrow> \<exists>pre x. s = pre @ x \<and> f x = Some g"
proof (induction s)
  case Nil
  then show ?case by simp
next
  case (Cons c cs)
  show ?case
  proof (cases "f (c # cs)")
    case None
    with Cons.prems have "first_suffix f cs = Some g" by simp
    then obtain pre x where "cs = pre @ x" "f x = Some g"
      using Cons.IH by blast
    then have "c # cs = (c # pre) @ x \<and> f x = Some g" by simp
    then show ?thesis by blast
  next
    case (Some r)
    with Cons.prems have "f (c # cs) = Some g" by simp
    then have "c # cs = [] @ (c # cs) \<and> f (c # cs) = Some g" by simp
    then show ?thesis by blast
  qed
qed

lemma first_suffix_here: "f x \<noteq> None \<Longrightarrow> first_suffix f x \<noteq> None"
  by (cases x) (auto split: option.splits)

lemma first_suffix_found: "f x \<noteq> None \<Longrightarrow> first_suffix f (pre @ x) \<noteq> None"
  by (induction pre) (auto simp: first_suffix_here split: option.splits)

lemma LF_not_digit: "\<not> is_digit LF"
  by (simp add: is_digit_def LF_def)

lemma match_ret_here_intro:
  assumes "ds \<noteq> []" and "list_all is_digit ds"
  shows "match_ret_here (''RET='' @ ds @ LF # post) = Some (''RET='' @ ds)"
proof -
  have d: "\<forall>c\<in>set ds. is_digit c"
    using assms(2) by (simp add: list_all_iff)
  have t: "takeWhile is_digit (ds @ LF # post) = ds"
    using d by (simp add: LF_not_digit)
  have dr: "dropWhile is_digit (ds @ LF # post) = LF # post"
    using d by (simp add: LF_not_digit)
  show ?thesis
    using assms(1) by (simp add: match_ret_here_def t dr)
qed

lemma match_ret_here_elim:
  assumes "match_ret_here x = Some g"
  shows "\<exists>ds post. x = ''RET='' @ ds @ LF # post \<and> ds \<noteq> [] \<and> list_all is_digit ds \<and> g = ''RET='' @ ds"
proof -
  from assms obtain rest where r: "strip_prefix ''RET='' x = Some rest"
    by (auto simp: match_ret_here_def split: option.splits)
  define ds where "ds = takeWhile is_digit rest"
  from assms r have nz: "ds \<noteq> []" and lf: "strip_prefix [LF] (dropWhile is_digit rest) \<noteq> None"
    and g: "g = ''RET='' @ ds"
    by (auto simp: match_ret_here_def Let_def ds_def split: if_splits)
  from lf obtain post where p: "dropWhile is_digit rest = [LF] @ post"
    using strip_prefix_iff by blast
  have "rest = ds @ dropWhile is_digit rest"
    by (simp add: ds_def)
  with p have rest: "rest = ds @ LF # post" by simp
  have x: "x = ''RET='' @ rest"
    using r strip_prefix_iff by blast
  have dig: "list_all is_digit ds"
    by (auto simp: ds_def list_all_iff dest: set_takeWhileD)
  from x rest nz dig g show ?thesis by auto
qed

lemma search_ret_found: "(search_ret buf \<noteq> NoMatch) = (first_suffix match_ret_here buf \<noteq> None)"
  by (simp add: search_ret_def split: option.splits)

text \<open>
  C3, as the code has it. In shell mode \<open>run\<close> passes \<open>search_ret\<close> to the exchange,
  and \<open>search_ret\<close> finds a match exactly when the buffer contains \<^verbatim>\<open>RET=\<close>, one or more
  digits and a newline, wherever in a line the \<^verbatim>\<open>RET=\<close> stands: the pattern is not
  anchored at the beginning of a line.
\<close>

theorem search_ret_iff:
  "(search_ret buf \<noteq> NoMatch) =
   (\<exists>pre ds post. buf = pre @ ''RET='' @ ds @ LF # post \<and> ds \<noteq> [] \<and> list_all is_digit ds)"
proof
  assume "search_ret buf \<noteq> NoMatch"
  then have "first_suffix match_ret_here buf \<noteq> None"
    by (simp add: search_ret_found)
  then obtain g where g: "first_suffix match_ret_here buf = Some g"
    by (cases "first_suffix match_ret_here buf") simp_all
  from first_suffix_Some [OF g] obtain pre x where b: "buf = pre @ x" and m: "match_ret_here x = Some g"
    by (elim exE conjE)
  from match_ret_here_elim [OF m] obtain ds post
    where x: "x = ''RET='' @ ds @ LF # post" and nz: "ds \<noteq> []" and d: "list_all is_digit ds"
    by (elim exE conjE)
  have "buf = pre @ ''RET='' @ ds @ LF # post \<and> ds \<noteq> [] \<and> list_all is_digit ds"
    by (simp only: b x nz d not_False_eq_True simp_thms)
  then show "\<exists>pre ds post. buf = pre @ ''RET='' @ ds @ LF # post \<and> ds \<noteq> [] \<and> list_all is_digit ds"
    by (intro exI)
next
  assume "\<exists>pre ds post. buf = pre @ ''RET='' @ ds @ LF # post \<and> ds \<noteq> [] \<and> list_all is_digit ds"
  then obtain pre ds post where b: "buf = pre @ ''RET='' @ ds @ LF # post"
    and nz: "ds \<noteq> []" and d: "list_all is_digit ds"
    by (elim exE conjE)
  have "match_ret_here (''RET='' @ ds @ LF # post) \<noteq> None"
    by (simp only: match_ret_here_intro [OF nz d] option.distinct not_False_eq_True)
  then have "first_suffix match_ret_here (pre @ ''RET='' @ ds @ LF # post) \<noteq> None"
    by (rule first_suffix_found)
  then show "search_ret buf \<noteq> NoMatch"
    unfolding search_ret_found b .
qed

text \<open>
  C3 as stated fails: the line \<^verbatim>\<open>SECRET=3\<close> does not begin with \<^verbatim>\<open>RET=\<close>, yet the
  pattern matches in it and the exchange records \<^verbatim>\<open>RET=3\<close>.
\<close>

theorem search_ret_inside_line:
  "search_ret (''SECRET=3'' @ [LF]) = Match (Some ''RET=3'') \<and> \<not> spec_ret_line (''SECRET=3'' @ [LF])"
  by code_simp

section \<open>Reading lines\<close>

lemma read_loop_chars:
  "LF \<notin> set cs \<Longrightarrow> read_loop (map Some cs @ rest) acc = read_loop rest (acc @ filter (\<lambda>c. c \<noteq> CR) cs)"
  by (induction cs arbitrary: acc) auto

lemma read_loop_set:
  "read_loop fh acc = (line, fh') \<Longrightarrow> set line \<subseteq> set acc \<union> {c. c \<noteq> CR \<and> c \<noteq> LF}"
proof (induction fh acc arbitrary: line fh' rule: read_loop.induct)
  case (1 line0)
  then show ?case by auto
next
  case (2 fh line0)
  then show ?case by auto
next
  case (3 c fh line0)
  then show ?case by (auto split: if_splits)
qed

lemma noblock_read_line_clean:
  "LF \<notin> set (fst (noblock_read_line fh)) \<and> CR \<notin> set (fst (noblock_read_line fh))"
  using read_loop_set [of fh "[]" "fst (read_loop fh [])" "snd (read_loop fh [])"]
  by (auto simp: noblock_read_line_def)

lemma kill_tunnel_pipes:
  "p_stdout (procs (kill_tunnel h d w) t) = p_stdout (procs w t)
   \<and> p_stderr (procs (kill_tunnel h d w) t) = p_stderr (procs w t)"
  by (auto simp: kill_tunnel_def popen_kill_def Let_def split: option.splits sum.splits if_splits)

lemma poll_iter_stdout:
  "stdout (fst (snd (poll_iter s t m w))) = add_line (stdout s) (fst (noblock_read_line (p_stdout (procs w t))))"
  by (auto simp: poll_iter_def Let_def add_line_def split: prod.splits re_match.splits)

lemma poll_iter_stderr:
  "stderr (fst (snd (poll_iter s t m w))) = add_line (stderr s) (fst (noblock_read_line (p_stderr (procs w t))))"
  by (auto simp: poll_iter_def Let_def add_line_def split: prod.splits re_match.splits)

lemma poll_iter_pipes:
  "p_stdout (procs (snd (snd (poll_iter s t m w))) t) = snd (noblock_read_line (p_stdout (procs w t)))
   \<and> p_stderr (procs (snd (snd (poll_iter s t m w))) t) = snd (noblock_read_line (p_stderr (procs w t)))"
  by (auto simp: poll_iter_def Let_def kill_tunnel_pipes split: prod.splits re_match.splits)

text \<open>
  C4, as the code has it. A line that \<open>noblock_read_line\<close> returns has no carriage
  return and no newline in it. Reading characters without a newline in them ends at a
  newline, when nothing more can be read for the moment, and at end of file, and each
  time the characters read (without the carriage returns) are returned at once and the
  pipe is left after them: nothing is kept for a later call. One pass of the polling
  loop appends the line it read from stdout to \<open>stdout\<close> and the one from stderr to
  \<open>stderr\<close>, each followed by a newline unless it is empty, in that same pass.
\<close>

theorem poll_iter_reads_lines:
  "LF \<notin> set (fst (noblock_read_line fh)) \<and> CR \<notin> set (fst (noblock_read_line fh))
   \<and> (LF \<notin> set cs \<longrightarrow>
        noblock_read_line (map Some cs @ Some LF # fh) = (filter (\<lambda>c. c \<noteq> CR) cs, fh)
      \<and> noblock_read_line (map Some cs @ None # fh) = (filter (\<lambda>c. c \<noteq> CR) cs, fh)
      \<and> noblock_read_line (map Some cs) = (filter (\<lambda>c. c \<noteq> CR) cs, []))
   \<and> stdout (fst (snd (poll_iter s t m w)))
       = add_line (stdout s) (fst (noblock_read_line (p_stdout (procs w t))))
   \<and> stderr (fst (snd (poll_iter s t m w)))
       = add_line (stderr s) (fst (noblock_read_line (p_stderr (procs w t))))
   \<and> p_stdout (procs (snd (snd (poll_iter s t m w))) t) = snd (noblock_read_line (p_stdout (procs w t)))
   \<and> p_stderr (procs (snd (snd (poll_iter s t m w))) t) = snd (noblock_read_line (p_stderr (procs w t)))"
proof -
  have a: "LF \<notin> set cs \<Longrightarrow> noblock_read_line (map Some cs @ Some LF # fh) = (filter (\<lambda>c. c \<noteq> CR) cs, fh)"
    by (simp add: noblock_read_line_def read_loop_chars LF_def CR_def)
  have b: "LF \<notin> set cs \<Longrightarrow> noblock_read_line (map Some cs @ None # fh) = (filter (\<lambda>c. c \<noteq> CR) cs, fh)"
    by (simp add: noblock_read_line_def read_loop_chars)
  have c: "LF \<notin> set cs \<Longrightarrow> noblock_read_line (map Some cs) = (filter (\<lambda>c. c \<noteq> CR) cs, [])"
    using read_loop_chars [of cs "[]" "[]"] by (simp add: noblock_read_line_def)
  note d = noblock_read_line_clean [of fh, THEN conjunct1] noblock_read_line_clean [of fh, THEN conjunct2]
  note e = poll_iter_pipes [of s t m w, THEN conjunct1] poll_iter_pipes [of s t m w, THEN conjunct2]
  show ?thesis
    by (intro conjI impI) (rule a b c d e poll_iter_stdout poll_iter_stderr; assumption?)+
qed

theorem poll_iter_reads_lines_witness:
  "LF \<notin> set ''ab''
   \<and> noblock_read_line (map Some ''ab'' @ None # [Some CHR ''c'', Some LF]) = (''ab'', [Some CHR ''c'', Some LF])
   \<and> stdout (fst (snd (poll_iter shell_foo 0 search_ret partial_world)))
       = add_line (stdout shell_foo) (fst (noblock_read_line (p_stdout (procs partial_world 0))))"
proof -
  have l: "LF \<notin> set ''ab''"
    by (simp add: LF_def)
  have f: "filter (\<lambda>c. c \<noteq> CR) ''ab'' = ''ab''"
    by (simp add: CR_def)
  note t = poll_iter_reads_lines [of "[Some CHR ''c'', Some LF]" "''ab''" shell_foo 0 search_ret partial_world]
  from t have "LF \<notin> set ''ab'' \<longrightarrow>
      noblock_read_line (map Some ''ab'' @ None # [Some CHR ''c'', Some LF])
        = (filter (\<lambda>c. c \<noteq> CR) ''ab'', [Some CHR ''c'', Some LF])"
    by (elim conjE) (intro impI, elim impE, assumption, elim conjE, assumption)
  with l f have r: "noblock_read_line (map Some ''ab'' @ None # [Some CHR ''c'', Some LF]) = (''ab'', [Some CHR ''c'', Some LF])"
    by simp
  from t have p: "stdout (fst (snd (poll_iter shell_foo 0 search_ret partial_world)))
       = add_line (stdout shell_foo) (fst (noblock_read_line (p_stdout (procs partial_world 0))))"
    by (elim conjE)
  from l r p show ?thesis
    by (intro conjI)
qed

text \<open>
  C4 as stated fails: \<^verbatim>\<open>ab\<close> is read without a newline after it, and the same pass of
  the loop appends it to \<open>stdout\<close> with a newline added; only what was not read yet
  is left in the pipe.
\<close>

theorem poll_iter_partial_line_appended:
  "stdout (fst (snd (poll_iter shell_foo 0 search_ret partial_world))) = ''ab'' @ [LF]
   \<and> p_stdout (procs (snd (snd (poll_iter shell_foo 0 search_ret partial_world))) 0)
       = [Some CHR ''c'', Some LF]"
  by code_simp

section \<open>Opening the tunnel\<close>

text \<open>
  C2 fails on the code. A registered process that has exited with status 0 is not
  released: \<^verbatim>\<open>if tunnel.poll()\<close> is false for the status 0 as it is for \<^verbatim>\<open>None\<close>, so
  \<open>open_tunnel\<close> returns the dead process and leaves the pool as it is, and the string
  is then written to that process. The comment in the source asks what happens if the
  tunnel died.
\<close>

theorem open_tunnel_keeps_exit0:
  assumes "map_of (tunnels w) (pool_key (hostname s) (daemon_of (daemon s))) = Some t"
    and "returncode (procs w t) = Some 0"
  shows "open_tunnel s w = (t, w)"
  using assms by (simp add: open_tunnel_def get_tunnel_def)

theorem open_tunnel_keeps_exit0_witness:
  "map_of (tunnels exited0_world) (pool_key (hostname shell_foo) (daemon_of (daemon shell_foo))) = Some 0
   \<and> returncode (procs exited0_world 0) = Some 0
   \<and> open_tunnel shell_foo exited0_world = (0, exited0_world)"
proof -
  have a: "map_of (tunnels exited0_world) (pool_key (hostname shell_foo) (daemon_of (daemon shell_foo))) = Some 0"
    by code_simp
  have b: "returncode (procs exited0_world 0) = Some 0"
    by code_simp
  from open_tunnel_keeps_exit0 [OF a b] a b show ?thesis
    by (intro conjI)
qed

text \<open>A running process is returned as it is, too.\<close>

lemma open_tunnel_keeps_running:
  assumes "map_of (tunnels w) (pool_key (hostname s) (daemon_of (daemon s))) = Some t"
    and "returncode (procs w t) = None"
  shows "open_tunnel s w = (t, w)"
  using assms by (simp add: open_tunnel_def get_tunnel_def)

section \<open>The exceptions of an exchange\<close>

lemma check_is_list_of_strings_cases:
  "check_is_list_of_strings cmd = Inl TypeError \<or> check_is_list_of_strings cmd = Inr ()"
  by (cases cmd) simp_all

lemma poll_iter_raises:
  "poll_iter s t m w = (Raise e, s', w') \<Longrightarrow> loop_error e"
  by (auto simp: poll_iter_def Let_def loop_error_def split: prod.splits re_match.splits if_splits)

lemma poll_loop_raises:
  "poll_loop fuel s t m timeout ts w = Some (Inl e, s', w') \<Longrightarrow> loop_error e"
proof (induction fuel arbitrary: s w)
  case 0
  then show ?case by simp
next
  case (Suc n)
  obtain go w1 where c: "loop_cond timeout ts w = (go, w1)"
    by (cases "loop_cond timeout ts w")
  show ?case
  proof (cases go)
    case False
    with Suc.prems c show ?thesis by simp
  next
    case True
    obtain st s2 w2 where p: "poll_iter s t m w1 = (st, s2, w2)"
      by (cases "poll_iter s t m w1")
    show ?thesis
    proof (cases st)
      case Continue
      with Suc.prems c True p have "poll_loop n s2 t m timeout ts w2 = Some (Inl e, s', w')"
        by simp
      then show ?thesis by (rule Suc.IH)
    next
      case Break
      with Suc.prems c True p show ?thesis by simp
    next
      case (Raise e')
      with Suc.prems c True p have "e' = e" by simp
      with Raise p show ?thesis
        using poll_iter_raises by blast
    qed
  qed
qed

lemma after_loop_raises:
  "after_loop s str timeout ts w = (Inl e, s', w') \<Longrightarrow> truthy timeout \<and> (\<exists>msg. e = SshCmdTimeoutException msg)"
  by (auto simp: after_loop_def Let_def split: if_splits prod.splits)

lemma communicate_raises:
  assumes "communicate fuel s str m timeout w = Some (Inl e, s', w')"
  shows "loop_error e \<or> (truthy timeout \<and> (\<exists>msg. e = SshCmdTimeoutException msg))"
proof -
  obtain t w2 where o: "open_tunnel s w = (t, w2)"
    by (cases "open_tunnel s w")
  obtain ts w4 where tt: "time_time (send_line t str w2) = (ts, w4)"
    by (cases "time_time (send_line t str w2)")
  show ?thesis
  proof (cases "poll_loop fuel s t m timeout ts w4")
    case None
    with assms o tt show ?thesis
      by (simp add: communicate_def Let_def)
  next
    case (Some r)
    obtain res s1 w1 where r: "r = (res, s1, w1)"
      by (cases r)
    show ?thesis
    proof (cases res)
      case (Inl e')
      with assms o tt Some r have "e' = e"
        by (simp add: communicate_def Let_def)
      with Some r Inl have "poll_loop fuel s t m timeout ts w4 = Some (Inl e, s1, w1)"
        by simp
      then show ?thesis
        using poll_loop_raises by blast
    next
      case (Inr u)
      with assms o tt Some r have "after_loop s1 str timeout ts w1 = (Inl e, s', w')"
        by (simp add: communicate_def Let_def)
      then show ?thesis
        using after_loop_raises by blast
    qed
  qed
qed

lemma shell_result_raises:
  "shell_result s str w = (Inl e, s', w') \<Longrightarrow>
     e = ValueError \<or> (\<exists>msg. e = SshException msg) \<or> (\<exists>msg. e = SshCmdFailedException msg)"
proof (cases "retval s")
  case None
  assume "shell_result s str w = (Inl e, s', w')"
  with None show ?thesis by (auto simp: shell_result_def)
next
  case (Some r)
  assume a: "shell_result s str w = (Inl e, s', w')"
  show ?thesis
  proof (cases "unpack2 (split1 (CHR ''='') r)")
    case (Inl e')
    have "e' = ValueError"
      using Inl by (cases "split1 (CHR ''='') r" rule: unpack2.cases) simp_all
    with a Some Inl show ?thesis by (auto simp: shell_result_def)
  next
    case (Inr p)
    with a Some show ?thesis
      by (cases p) (auto simp: shell_result_def Let_def split: if_splits)
  qed
qed

lemma not_loop_error [simp]:
  "\<not> loop_error TypeError" "\<not> loop_error ValueError" "\<not> loop_error (SshCmdTimeoutException m)"
  "\<not> loop_error (SshCmdFailedException m)"
  by (simp_all add: loop_error_def)

lemma run_validated:
  assumes "check_is_list_of_strings cmd = Inr ()" and "truthy timeout \<longrightarrow> is_IntType timeout"
  shows "run fuel s cmd timeout w =
     (if has_daemon (daemon s)
      then (case communicate fuel (s\<lparr>retval := None, stdout := [], stderr := []\<rparr>)
                   (join_sp (str_items cmd)) (match s) timeout w of
              None \<Rightarrow> None
            | Some (Inl e, s', w') \<Rightarrow> Some (Inl e, s', w')
            | Some (Inr u, s', w') \<Rightarrow> Some (Inr (stdout s'), s', w'))
      else (case communicate fuel (s\<lparr>retval := None, stdout := [], stderr := []\<rparr>)
                   (shell_string (str_items cmd)) search_ret timeout w of
              None \<Rightarrow> None
            | Some (Inl e, s', w') \<Rightarrow> Some (Inl e, s', w')
            | Some (Inr u, s', w') \<Rightarrow> Some (shell_result s' (shell_string (str_items cmd)) w')))"
  using assms by (cases "truthy timeout") (simp_all add: run_def Let_def)

lemma run_validated_raises:
  assumes v: "check_is_list_of_strings cmd = Inr ()" "truthy timeout \<longrightarrow> is_IntType timeout"
    and r: "run fuel s cmd timeout w = Some (Inl e, s', w')"
  shows "e = ValueError \<or> loop_error e \<or> (\<exists>m. e = SshException m) \<or> (\<exists>m. e = SshCmdFailedException m)
         \<or> (truthy timeout \<and> (\<exists>m. e = SshCmdTimeoutException m))"
proof (cases "has_daemon (daemon s)")
  case True
  let ?c = "communicate fuel (s\<lparr>retval := None, stdout := [], stderr := []\<rparr>)
              (join_sp (str_items cmd)) (match s) timeout w"
  from r True have "?c = Some (Inl e, s', w')"
    unfolding run_validated [OF v]
    by (simp split: option.splits prod.splits sum.splits)
  from communicate_raises [OF this] show ?thesis by blast
next
  case False
  let ?c = "communicate fuel (s\<lparr>retval := None, stdout := [], stderr := []\<rparr>)
              (shell_string (str_items cmd)) search_ret timeout w"
  from r False have "?c = Some (Inl e, s', w') \<or>
      (\<exists>u s1 w1. ?c = Some (Inr u, s1, w1) \<and> shell_result s1 (shell_string (str_items cmd)) w1 = (Inl e, s', w'))"
    unfolding run_validated [OF v]
    by (simp split: option.splits prod.splits sum.splits)
  then show ?thesis
  proof
    assume "?c = Some (Inl e, s', w')"
    from communicate_raises [OF this] show ?thesis by blast
  next
    assume "\<exists>u s1 w1. ?c = Some (Inr u, s1, w1) \<and> shell_result s1 (shell_string (str_items cmd)) w1 = (Inl e, s', w')"
    then obtain s1 w1 where "shell_result s1 (shell_string (str_items cmd)) w1 = (Inl e, s', w')"
      by blast
    from shell_result_raises [OF this] show ?thesis by blast
  qed
qed

lemma run_rejected:
  assumes "check_is_list_of_strings cmd \<noteq> Inr () \<or> (truthy timeout \<and> \<not> is_IntType timeout)"
  shows "run fuel s cmd timeout w = Some (Inl TypeError, s, w)"
  using assms check_is_list_of_strings_cases [of cmd]
  by (auto simp: run_def)

lemma run_timeout_raised:
  assumes "run fuel s cmd timeout w = Some (Inl (SshCmdTimeoutException m), s', w')"
  shows "truthy timeout"
proof (cases "check_is_list_of_strings cmd = Inr () \<and> (truthy timeout \<longrightarrow> is_IntType timeout)")
  case True
  then have v: "check_is_list_of_strings cmd = Inr ()" "truthy timeout \<longrightarrow> is_IntType timeout"
    by simp_all
  from run_validated_raises [OF v assms] show ?thesis
    by simp
next
  case False
  then have "check_is_list_of_strings cmd \<noteq> Inr () \<or> (truthy timeout \<and> \<not> is_IntType timeout)"
    by blast
  from run_rejected [OF this, of fuel s w] assms show ?thesis
    by simp
qed

section \<open>A match when the time is up\<close>

text \<open>
  C1 fails on the code. The remote shell answers \<^verbatim>\<open>RET=0\<close>; the loop condition is
  evaluated half a second after the start, the line is read and matched (the value
  \<^verbatim>\<open>RET=0\<close> is recorded) and the loop is left by \<^verbatim>\<open>break\<close>; the check after the loop
  reads the clock again, one and a half seconds after the start, does not look at
  \<^verbatim>\<open>finished\<close>, releases the tunnel and raises the timeout exception.
\<close>

theorem run_match_then_timeout:
  "map_option fst (run 1 shell_foo true_cmd (PyInt 1) ret0_world)
     = Some (Inl (SshCmdTimeoutException
          (''Timed-out while waiting for reply for command ['' @ shell_string [''true''] @ '']'')))
   \<and> map_option (retval \<circ> fst \<circ> snd) (run 1 shell_foo true_cmd (PyInt 1) ret0_world) = Some (Some ''RET=0'')
   \<and> map_option (tunnels \<circ> snd \<circ> snd) (run 1 shell_foo true_cmd (PyInt 1) ret0_world) = Some []"
  by code_simp

section \<open>No recorded value\<close>

text \<open>
  C6 fails on the code. With a time limit of one second and a clock that is set back
  between the loop condition (which ends the loop) and the check after the loop (which
  then sees no timeout), \<^verbatim>\<open>_communicate\<close> returns with no value recorded; \<open>run\<close>
  raises the \<^verbatim>\<open>SshException\<close> for the value it cannot parse, and the tunnel is still
  registered and its process still running: nothing releases it, where every
  \<^verbatim>\<open>SshException\<close> raised in \<^verbatim>\<open>_communicate\<close> is preceded by \<^verbatim>\<open>kill_tunnel\<close>.
\<close>

theorem run_parse_failure_keeps_tunnel:
  "map_option fst (run 1 shell_foo true_cmd (PyInt 1) (world_of (proc_of None [] []) back_clock))
     = Some (Inl (SshException
          (''Failed to parse return value from output of ['' @ shell_string [''true''] @ '']'')))
   \<and> map_option (tunnels \<circ> snd \<circ> snd)
        (run 1 shell_foo true_cmd (PyInt 1) (world_of (proc_of None [] []) back_clock))
     = Some [(''foo-None'', 0)]
   \<and> map_option (\<lambda>r. returncode (procs (snd (snd r)) 0))
        (run 1 shell_foo true_cmd (PyInt 1) (world_of (proc_of None [] []) back_clock))
     = Some None"
  by code_simp

section \<open>The time limit given to run\<close>

text \<open>
  C7, as the code has it. A \<^verbatim>\<open>timeout\<close> that is true and is not an \<^verbatim>\<open>int\<close> (a float, a
  string, a \<^verbatim>\<open>long\<close> such as \<^verbatim>\<open>5L\<close> or \<^verbatim>\<open>2**63\<close>) makes \<open>run\<close> raise \<^verbatim>\<open>TypeError\<close> at
  once: the object and the environment are as before the call, so nothing was sent.
  Every other \<^verbatim>\<open>timeout\<close> (a false value of any type, and every value of type \<^verbatim>\<open>int\<close>,
  the negative ones too) passes the check: with a list of strings as command, \<open>run\<close>
  does not raise \<^verbatim>\<open>TypeError\<close>.
\<close>

theorem run_timeout_validation:
  "(truthy timeout \<and> \<not> is_IntType timeout \<longrightarrow> run fuel s cmd timeout w = Some (Inl TypeError, s, w))
   \<and> (check_is_list_of_strings cmd = Inr () \<and> (truthy timeout \<longrightarrow> is_IntType timeout)
        \<longrightarrow> (\<forall>s' w'. run fuel s cmd timeout w \<noteq> Some (Inl TypeError, s', w')))"
proof (intro conjI impI allI notI)
  assume "truthy timeout \<and> \<not> is_IntType timeout"
  then have "check_is_list_of_strings cmd \<noteq> Inr () \<or> (truthy timeout \<and> \<not> is_IntType timeout)"
    by (rule disjI2)
  then show "run fuel s cmd timeout w = Some (Inl TypeError, s, w)"
    by (rule run_rejected)
next
  fix s' w'
  assume v: "check_is_list_of_strings cmd = Inr () \<and> (truthy timeout \<longrightarrow> is_IntType timeout)"
    and r: "run fuel s cmd timeout w = Some (Inl TypeError, s', w')"
  from v have v1: "check_is_list_of_strings cmd = Inr ()" and v2: "truthy timeout \<longrightarrow> is_IntType timeout"
    by (rule conjunct1, rule conjunct2)
  from run_validated_raises [OF v1 v2 r] show False
    by simp
qed

theorem run_timeout_validation_witness:
  "truthy (PyStr ''5'') \<and> \<not> is_IntType (PyStr ''5'')
   \<and> run 1 shell_foo true_cmd (PyStr ''5'') (world_of (proc_of None [] []) tick_clock)
       = Some (Inl TypeError, shell_foo, world_of (proc_of None [] []) tick_clock)
   \<and> truthy (PyLong 5) \<and> \<not> is_IntType (PyLong 5)
   \<and> run 1 shell_foo true_cmd (PyLong 5) (world_of (proc_of None [] []) tick_clock)
       = Some (Inl TypeError, shell_foo, world_of (proc_of None [] []) tick_clock)
   \<and> truthy (PyInt (2 ^ 63)) \<and> \<not> is_IntType (PyInt (2 ^ 63))
   \<and> run 1 shell_foo true_cmd (PyInt (2 ^ 63)) (world_of (proc_of None [] []) tick_clock)
       = Some (Inl TypeError, shell_foo, world_of (proc_of None [] []) tick_clock)
   \<and> check_is_list_of_strings true_cmd = Inr () \<and> is_IntType (PyInt (- 1))
   \<and> run 1 shell_foo true_cmd (PyInt (- 1)) (world_of (proc_of None [] []) tick_clock)
       \<noteq> Some (Inl TypeError, shell_foo, world_of (proc_of None [] []) tick_clock)"
proof -
  let ?w = "world_of (proc_of None [] []) tick_clock"
  have a: "truthy (PyStr ''5'') \<and> \<not> is_IntType (PyStr ''5'')"
    by simp
  have l: "truthy (PyLong 5) \<and> \<not> is_IntType (PyLong 5)"
    by simp
  have g: "truthy (PyInt (2 ^ 63)) \<and> \<not> is_IntType (PyInt (2 ^ 63))"
    by (simp add: maxint_def)
  have c: "is_IntType (PyInt (- 1))"
    by (simp add: maxint_def)
  have k: "check_is_list_of_strings true_cmd = Inr ()"
    by (simp add: true_cmd_def)
  from k c have b: "check_is_list_of_strings true_cmd = Inr () \<and> (truthy (PyInt (- 1)) \<longrightarrow> is_IntType (PyInt (- 1)))"
    by (intro conjI impI)
  note t1 = run_timeout_validation [of "PyStr ''5''" 1 shell_foo true_cmd ?w, THEN conjunct1, rule_format, OF a]
  note t2 = run_timeout_validation [of "PyLong 5" 1 shell_foo true_cmd ?w, THEN conjunct1, rule_format, OF l]
  note t3 = run_timeout_validation [of "PyInt (2 ^ 63)" 1 shell_foo true_cmd ?w, THEN conjunct1, rule_format, OF g]
  note t4 = run_timeout_validation [of "PyInt (- 1)" 1 shell_foo true_cmd ?w, THEN conjunct2, rule_format, OF b]
  from a l g k c t1 t2 t3 t4 show ?thesis
    by (intro conjI) (elim conjE, assumption)+
qed

text \<open>
  C7 as stated fails: the negative integer \<^verbatim>\<open>-1\<close> is not rejected. The string is
  written to the tunnel, the loop is not entered, and the check after the loop raises
  the timeout exception.
\<close>

theorem run_negative_timeout:
  "map_option fst (run 1 shell_foo true_cmd (PyInt (- 1)) (world_of (proc_of None [] []) tick_clock))
     = Some (Inl (SshCmdTimeoutException
          (''Timed-out while waiting for reply for command ['' @ shell_string [''true''] @ '']'')))
   \<and> map_option (\<lambda>r. p_stdin (procs (snd (snd r)) 0))
        (run 1 shell_foo true_cmd (PyInt (- 1)) (world_of (proc_of None [] []) tick_clock))
     = Some (shell_string [''true''] @ [LF])"
  by code_simp

section \<open>A time limit of zero\<close>

lemma loop_cond_falsy: "\<not> truthy timeout \<Longrightarrow> loop_cond timeout ts w = (True, w)"
  by (simp add: loop_cond_def)

lemma poll_loop_falsy:
  "\<not> truthy t1 \<Longrightarrow> \<not> truthy t2 \<Longrightarrow> poll_loop fuel s t m t1 ts w = poll_loop fuel s t m t2 ts w"
proof (induction fuel arbitrary: s w)
  case 0
  show ?case by simp
next
  case (Suc n)
  have ih: "\<And>s2 w2. poll_loop n s2 t m t1 ts w2 = poll_loop n s2 t m t2 ts w2"
    using Suc.IH Suc.prems by blast
  show ?case
    unfolding poll_loop.simps loop_cond_falsy [OF Suc.prems(1)] loop_cond_falsy [OF Suc.prems(2)] ih
    by (rule refl)
qed

lemma after_loop_falsy: "\<not> truthy timeout \<Longrightarrow> after_loop s str timeout ts w = (Inr (), s, w)"
  by (simp add: after_loop_def)

lemma communicate_falsy:
  assumes "\<not> truthy t1" and "\<not> truthy t2"
  shows "communicate fuel s str m t1 w = communicate fuel s str m t2 w"
  unfolding communicate_def poll_loop_falsy [OF assms] after_loop_falsy [OF assms(1)]
    after_loop_falsy [OF assms(2)]
  by (rule refl)

lemma run_falsy:
  assumes "\<not> truthy t1" and "\<not> truthy t2"
  shows "run fuel s cmd t1 w = run fuel s cmd t2 w"
proof -
  have c: "\<And>s0 str m. communicate fuel s0 str m t1 w = communicate fuel s0 str m t2 w"
    by (rule communicate_falsy [OF assms])
  have f: "(truthy t1 \<and> \<not> is_IntType t1) = False" "(truthy t2 \<and> \<not> is_IntType t2) = False"
    using assms by simp_all
  show ?thesis
    unfolding run_def c f by (rule refl)
qed

lemma poll_iter_idle:
  assumes "p_stdout (procs w t) = []" and "p_stderr (procs w t) = []"
  shows "\<exists>w'. poll_iter s t m w = (Continue, s, w') \<and> p_stdout (procs w' t) = [] \<and> p_stderr (procs w' t) = []"
  using assms by (simp add: poll_iter_def noblock_read_line_def Let_def)

lemma poll_loop_idle:
  assumes "\<not> truthy timeout"
  shows "p_stdout (procs w t) = [] \<Longrightarrow> p_stderr (procs w t) = [] \<Longrightarrow> poll_loop fuel s t m timeout ts w = None"
proof (induction fuel arbitrary: w)
  case 0
  show ?case by simp
next
  case (Suc n)
  from poll_iter_idle [OF Suc.prems] obtain w' where p: "poll_iter s t m w = (Continue, s, w')"
    and e: "p_stdout (procs w' t) = []" "p_stderr (procs w' t) = []"
    by blast
  have "poll_loop n s t m timeout ts w' = None"
    using e by (rule Suc.IH)
  then show ?case
    using assms p by (simp add: loop_cond_falsy)
qed

lemma communicate_idle:
  assumes "\<not> truthy timeout" and "open_tunnel s w = (t, w2)"
    and "p_stdout (procs w2 t) = []" and "p_stderr (procs w2 t) = []"
  shows "communicate fuel s str m timeout w = None"
proof -
  obtain ts w4 where tt: "time_time (send_line t str w2) = (ts, w4)"
    by (cases "time_time (send_line t str w2)")
  then have "p_stdout (procs w4 t) = []" and "p_stderr (procs w4 t) = []"
    using assms(3,4) by (auto simp: time_time_def send_line_def)
  then have "poll_loop fuel s t m timeout ts w4 = None"
    by (rule poll_loop_idle [OF assms(1)])
  then show ?thesis
    using assms(2) tt by (simp add: communicate_def Let_def)
qed

lemma shell_foo_idle:
  "run fuel shell_foo true_cmd (PyInt 0) (world_of (proc_of None [] []) clk) = None"
proof -
  let ?w = "world_of (proc_of None [] []) clk"
  let ?s = "shell_foo\<lparr>retval := None, stdout := [], stderr := []\<rparr>"
  have o: "open_tunnel ?s ?w = (0, snd (open_tunnel ?s ?w))
           \<and> p_stdout (procs (snd (open_tunnel ?s ?w)) 0) = [] \<and> p_stderr (procs (snd (open_tunnel ?s ?w)) 0) = []"
    by (simp add: open_tunnel_def get_tunnel_def shell_foo_def world_of_def proc_of_def Let_def)
  have f: "\<not> truthy (PyInt 0)" by simp
  note o1 = o [THEN conjunct1] and o2 = o [THEN conjunct2, THEN conjunct1]
    and o3 = o [THEN conjunct2, THEN conjunct2]
  have "communicate fuel ?s (shell_string (str_items true_cmd)) search_ret (PyInt 0) ?w = None"
    by (rule communicate_idle [OF f o1 o2 o3])
  then show ?thesis
    by (simp add: run_def true_cmd_def shell_foo_def Let_def)
qed

text \<open>
  C10. \<open>run\<close> with the time limit 0 is \<open>run\<close> with no time limit, whatever the result
  (also when the fuel runs out), and it never raises the timeout exception; a timeout
  exception means that the \<^verbatim>\<open>timeout\<close> given is a true value. With the time limit 0 and
  a tunnel that never writes anything, \<open>run\<close> has no result for any amount of fuel and
  whatever the clock shows: the loop goes on for ever.
\<close>

theorem run_timeout_zero:
  "run fuel s cmd (PyInt 0) w = run fuel s cmd PyNone w
   \<and> (\<forall>msg s' w'. run fuel s cmd (PyInt 0) w \<noteq> Some (Inl (SshCmdTimeoutException msg), s', w'))
   \<and> (\<forall>msg s' w'. run fuel s cmd timeout w = Some (Inl (SshCmdTimeoutException msg), s', w') \<longrightarrow> truthy timeout)
   \<and> run fuel shell_foo true_cmd (PyInt 0) (world_of (proc_of None [] []) clk) = None"
proof (intro conjI allI impI notI)
  show "run fuel s cmd (PyInt 0) w = run fuel s cmd PyNone w"
    by (rule run_falsy) simp_all
next
  fix msg s' w'
  assume "run fuel s cmd (PyInt 0) w = Some (Inl (SshCmdTimeoutException msg), s', w')"
  then have "truthy (PyInt 0)"
    by (rule run_timeout_raised)
  then show False by simp
next
  fix msg s' w'
  assume "run fuel s cmd timeout w = Some (Inl (SshCmdTimeoutException msg), s', w')"
  then show "truthy timeout"
    by (rule run_timeout_raised)
next
  show "run fuel shell_foo true_cmd (PyInt 0) (world_of (proc_of None [] []) clk) = None"
    by (rule shell_foo_idle)
qed

theorem run_timeout_zero_witness:
  "run 1 shell_foo true_cmd (PyInt 0) ret0_world = run 1 shell_foo true_cmd PyNone ret0_world
   \<and> map_option fst (run 1 shell_foo true_cmd (PyInt 0) ret0_world) = Some (Inr (''RET=0'' @ [LF]))
   \<and> map_option fst (run 1 shell_foo true_cmd (PyInt 1) (world_of (proc_of None [] []) tick_clock))
       = Some (Inl (SshCmdTimeoutException
            (''Timed-out while waiting for reply for command ['' @ shell_string [''true''] @ '']'')))
   \<and> truthy (PyInt 1)
   \<and> run 3 shell_foo true_cmd (PyInt 0) (world_of (proc_of None [] []) tick_clock) = None"
proof -
  let ?idle = "world_of (proc_of None [] []) tick_clock"
  let ?m = "''Timed-out while waiting for reply for command ['' @ shell_string [''true''] @ '']''"
  have a: "run 1 shell_foo true_cmd (PyInt 0) ret0_world = run 1 shell_foo true_cmd PyNone ret0_world"
    by (rule run_timeout_zero [of 1 shell_foo true_cmd ret0_world PyNone tick_clock, THEN conjunct1])
  have b: "map_option fst (run 1 shell_foo true_cmd (PyInt 0) ret0_world) = Some (Inr (''RET=0'' @ [LF]))"
    by code_simp
  have c: "map_option fst (run 1 shell_foo true_cmd (PyInt 1) ?idle) = Some (Inl (SshCmdTimeoutException ?m))"
    by code_simp
  then obtain s' w' where r: "run 1 shell_foo true_cmd (PyInt 1) ?idle = Some (Inl (SshCmdTimeoutException ?m), s', w')"
    by (cases "run 1 shell_foo true_cmd (PyInt 1) ?idle") auto
  have d: "truthy (PyInt 1)"
    by (rule run_timeout_zero [of 1 shell_foo true_cmd ?idle "PyInt 1" tick_clock,
          THEN conjunct2, THEN conjunct2, THEN conjunct1, rule_format, OF r])
  have e: "run 3 shell_foo true_cmd (PyInt 0) ?idle = None"
    by (rule run_timeout_zero [of 3 shell_foo true_cmd ?idle PyNone tick_clock,
          THEN conjunct2, THEN conjunct2, THEN conjunct2])
  from a b c d e show ?thesis
    by (intro conjI)
qed

section \<open>A command that fails\<close>

lemma get_tunnel_registered:
  "get_tunnel h d so w = (t, w') \<Longrightarrow> map_of (tunnels w') (pool_key h (daemon_of d)) = Some t"
  by (auto simp: get_tunnel_def Let_def AList.update_conv' split: option.splits)

lemma open_tunnel_registered:
  "open_tunnel s w = (t, w2) \<Longrightarrow> map_of (tunnels w2) (pool_key (hostname s) (daemon_of (daemon s))) = Some t"
  by (auto simp: open_tunnel_def split: prod.splits if_splits dest: get_tunnel_registered)

lemma send_line_tunnels: "tunnels (send_line t str w) = tunnels w"
  by (simp add: send_line_def)

lemma time_time_tunnels: "time_time w = (ts, w') \<Longrightarrow> tunnels w' = tunnels w"
  by (auto simp: time_time_def)

lemma loop_cond_tunnels: "loop_cond timeout ts w = (go, w1) \<Longrightarrow> tunnels w1 = tunnels w"
  by (auto simp: loop_cond_def time_time_def split: if_splits)

lemma poll_iter_session:
  "poll_iter s t m w = (st, s', w') \<Longrightarrow> hostname s' = hostname s \<and> daemon s' = daemon s"
  by (auto simp: poll_iter_def Let_def split: prod.splits re_match.splits if_splits)

lemma poll_iter_tunnels:
  "poll_iter s t m w = (st, s', w') \<Longrightarrow> st = Continue \<or> st = Break \<Longrightarrow> tunnels w' = tunnels w"
  by (auto simp: poll_iter_def Let_def split: prod.splits re_match.splits if_splits)

lemma poll_loop_keeps:
  "poll_loop fuel s t m timeout ts w = Some (r, s', w') \<Longrightarrow>
     hostname s' = hostname s \<and> daemon s' = daemon s \<and> ((\<exists>u. r = Inr u) \<longrightarrow> tunnels w' = tunnels w)"
proof (induction fuel arbitrary: s w)
  case 0
  then show ?case by simp
next
  case (Suc n)
  obtain go w1 where c: "loop_cond timeout ts w = (go, w1)"
    by (cases "loop_cond timeout ts w")
  note cw = loop_cond_tunnels [OF c]
  show ?case
  proof (cases go)
    case False
    with Suc.prems c cw show ?thesis by auto
  next
    case True
    obtain st s2 w2 where p: "poll_iter s t m w1 = (st, s2, w2)"
      by (cases "poll_iter s t m w1")
    note ps = poll_iter_session [OF p]
    show ?thesis
    proof (cases st)
      case Continue
      with Suc.prems c True p have l: "poll_loop n s2 t m timeout ts w2 = Some (r, s', w')"
        by simp
      have "tunnels w2 = tunnels w1"
        using poll_iter_tunnels [OF p] Continue by simp
      with Suc.IH [OF l] ps cw show ?thesis by simp
    next
      case Break
      have "tunnels w2 = tunnels w1"
        using poll_iter_tunnels [OF p] Break by simp
      with Suc.prems c True p Break ps cw show ?thesis by auto
    next
      case (Raise e)
      with Suc.prems c True p ps show ?thesis by auto
    qed
  qed
qed

lemma after_loop_keeps:
  "after_loop s str timeout ts w = (Inr u, s', w') \<Longrightarrow> s' = s \<and> tunnels w' = tunnels w"
  by (auto simp: after_loop_def Let_def time_time_def split: if_splits prod.splits)

lemma communicate_ok:
  assumes "communicate fuel s str m timeout w = Some (Inr u, s1, w1)"
  shows "hostname s1 = hostname s \<and> daemon s1 = daemon s
         \<and> map_of (tunnels w1) (pool_key (hostname s) (daemon_of (daemon s))) \<noteq> None"
proof -
  obtain t w2 where o: "open_tunnel s w = (t, w2)"
    by (cases "open_tunnel s w")
  obtain ts w4 where tt: "time_time (send_line t str w2) = (ts, w4)"
    by (cases "time_time (send_line t str w2)")
  have reg: "map_of (tunnels w4) (pool_key (hostname s) (daemon_of (daemon s))) = Some t"
    using open_tunnel_registered [OF o] time_time_tunnels [OF tt] by (simp add: send_line_tunnels)
  from assms o tt obtain u' s3 w3 where l: "poll_loop fuel s t m timeout ts w4 = Some (Inr u', s3, w3)"
    and a: "after_loop s3 str timeout ts w3 = (Inr u, s1, w1)"
    by (auto simp: communicate_def Let_def split: option.splits prod.splits sum.splits)
  from poll_loop_keeps [OF l] have k: "hostname s3 = hostname s" "daemon s3 = daemon s" "tunnels w3 = tunnels w4"
    by simp_all
  from after_loop_keeps [OF a] have "s1 = s3" "tunnels w1 = tunnels w3"
    by simp_all
  with k reg show ?thesis by simp
qed

lemma split1_RET: "split1 (CHR ''='') (''RET='' @ code) = [''RET'', code]"
  by (simp add: split1_def)

lemma shell_result_failed:
  assumes "retval s = Some (''RET='' @ code)" and "code \<noteq> ''0''"
  shows "shell_result s str w =
     (Inl (SshCmdFailedException
            (''An error occured while executing ['' @ str @ ''] on ['' @ hostname s
               @ '']. Return value was '' @ code)), s\<lparr>retval := Some code\<rparr>, w)"
  unfolding shell_result_def assms(1) option.case split1_RET unpack2.simps sum.case prod.case Let_def
  using assms(2) by simp

text \<open>
  What a completed exchange of shell mode has recorded is nothing or \<^verbatim>\<open>RET=\<close> followed
  by digits, so the code of the next theorem is every code that \<open>run\<close> can parse.
\<close>

lemma strip_prefix_append: "strip_prefix p (p @ r) = Some r"
  by (simp add: strip_prefix_iff)

lemma ret_value_RET: "ds \<noteq> [] \<Longrightarrow> list_all is_digit ds \<Longrightarrow> ret_value (Some (''RET='' @ ds))"
  unfolding ret_value_def option.case strip_prefix_append by simp

lemma search_ret_Match:
  assumes "search_ret b = Match g"
  shows "ret_value g"
proof -
  from assms obtain g' where f: "first_suffix match_ret_here b = Some g'" and g: "g = Some g'"
    by (auto simp: search_ret_def split: option.splits)
  from first_suffix_Some [OF f] obtain pre x where "match_ret_here x = Some g'"
    by (elim exE conjE)
  from match_ret_here_elim [OF this] obtain ds post
    where d: "ds \<noteq> []" "list_all is_digit ds" and g': "g' = ''RET='' @ ds"
    by (elim exE conjE)
  show ?thesis
    unfolding g g' using d by (rule ret_value_RET)
qed

lemma poll_iter_retval:
  assumes "poll_iter s t search_ret w = (st, s', w')" and "ret_value (retval s)"
  shows "ret_value (retval s')"
proof -
  obtain lo fo where lo: "noblock_read_line (p_stdout (procs w t)) = (lo, fo)"
    by (cases "noblock_read_line (p_stdout (procs w t))")
  obtain le fe where le: "noblock_read_line (p_stderr (procs w t)) = (le, fe)"
    by (cases "noblock_read_line (p_stderr (procs w t))")
  show ?thesis
  proof (cases "search_ret (add_line (stdout s) lo)")
    case NoMatch
    with assms lo le show ?thesis
      by (auto simp: poll_iter_def Let_def split: if_splits)
  next
    case (Match g)
    from search_ret_Match [OF Match] have "ret_value g" .
    with assms lo le Match show ?thesis
      by (auto simp: poll_iter_def Let_def split: if_splits)
  next
    case MatchNoGroup
    with assms lo le show ?thesis
      by (auto simp: poll_iter_def Let_def split: if_splits)
  qed
qed

lemma poll_loop_retval:
  "poll_loop fuel s t search_ret timeout ts w = Some (r, s', w') \<Longrightarrow> ret_value (retval s)
     \<Longrightarrow> ret_value (retval s')"
proof (induction fuel arbitrary: s w)
  case 0
  then show ?case by simp
next
  case (Suc n)
  obtain go w1 where c: "loop_cond timeout ts w = (go, w1)"
    by (cases "loop_cond timeout ts w")
  show ?case
  proof (cases go)
    case False
    with Suc.prems c show ?thesis by auto
  next
    case True
    obtain st s2 w2 where p: "poll_iter s t search_ret w1 = (st, s2, w2)"
      by (cases "poll_iter s t search_ret w1")
    note r2 = poll_iter_retval [OF p Suc.prems(2)]
    show ?thesis
    proof (cases st)
      case Continue
      with Suc.prems c True p have "poll_loop n s2 t search_ret timeout ts w2 = Some (r, s', w')"
        by simp
      then show ?thesis using r2 by (rule Suc.IH)
    next
      case Break
      with Suc.prems c True p r2 show ?thesis by auto
    next
      case (Raise e)
      with Suc.prems c True p r2 show ?thesis by auto
    qed
  qed
qed

lemma after_loop_session: "after_loop s str timeout ts w = (r, s', w') \<Longrightarrow> s' = s"
  by (auto simp: after_loop_def Let_def split: if_splits prod.splits)

lemma communicate_shell_retval:
  assumes "communicate fuel s str search_ret timeout w = Some (r, s1, w1)" and "retval s = None"
  shows "retval s1 = None \<or>
         (\<exists>code. retval s1 = Some (''RET='' @ code) \<and> code \<noteq> [] \<and> list_all is_digit code)"
proof -
  obtain t w2 where o: "open_tunnel s w = (t, w2)"
    by (cases "open_tunnel s w")
  obtain ts w4 where tt: "time_time (send_line t str w2) = (ts, w4)"
    by (cases "time_time (send_line t str w2)")
  from assms(1) o tt obtain r' s3 w3 where l: "poll_loop fuel s t search_ret timeout ts w4 = Some (r', s3, w3)"
    and s: "s1 = s3"
    by (auto simp: communicate_def Let_def split: option.splits prod.splits sum.splits dest: after_loop_session)
  have "ret_value (retval s)"
    by (simp add: assms(2) ret_value_def)
  with l have v: "ret_value (retval s1)"
    unfolding s by (rule poll_loop_retval)
  show ?thesis
  proof (cases "retval s1")
    case None
    then show ?thesis by (rule disjI1)
  next
    case (Some g)
    with v obtain ds where p: "strip_prefix ''RET='' g = Some ds" and d: "ds \<noteq> []" "list_all is_digit ds"
      by (auto simp: ret_value_def split: option.splits)
    from p have "g = ''RET='' @ ds"
      by (simp only: strip_prefix_iff)
    with Some d have "retval s1 = Some (''RET='' @ ds) \<and> ds \<noteq> [] \<and> list_all is_digit ds"
      by (simp only: simp_thms)
    then have "\<exists>code. retval s1 = Some (''RET='' @ code) \<and> code \<noteq> [] \<and> list_all is_digit code"
      by (rule exI)
    then show ?thesis by (rule disjI2)
  qed
qed

text \<open>
  C5, as the code has it. In shell mode, when the exchange has completed and the value
  it recorded is \<^verbatim>\<open>RET=\<close> followed by a code other than the string \<^verbatim>\<open>0\<close>, \<open>run\<close>
  raises \<^verbatim>\<open>SshCmdFailedException\<close>. The exception carries a message that ends with the
  code; stdout and stderr as captured stay in the object, whose \<open>retval\<close> is the
  code; the environment is as the exchange left it, with the tunnel of the key still
  registered.
\<close>

theorem run_shell_command_failed:
  assumes "\<not> has_daemon (daemon s)"
    and "check_is_list_of_strings cmd = Inr ()"
    and "truthy timeout \<longrightarrow> is_IntType timeout"
    and "communicate fuel (s\<lparr>retval := None, stdout := [], stderr := []\<rparr>)
           (shell_string (str_items cmd)) search_ret timeout w = Some (Inr u, s1, w1)"
    and "retval s1 = Some (''RET='' @ code)" and "code \<noteq> ''0''"
  shows "run fuel s cmd timeout w =
           Some (Inl (SshCmdFailedException
                  (''An error occured while executing ['' @ shell_string (str_items cmd) @ ''] on [''
                     @ hostname s @ '']. Return value was '' @ code)),
                 s1\<lparr>retval := Some code\<rparr>, w1)
         \<and> stdout (s1\<lparr>retval := Some code\<rparr>) = stdout s1
         \<and> stderr (s1\<lparr>retval := Some code\<rparr>) = stderr s1
         \<and> map_of (tunnels w1) (pool_key (hostname s) (daemon_of (daemon s))) \<noteq> None"
proof -
  from communicate_ok [OF assms(4)]
  have h: "hostname s1 = hostname s"
    and reg: "map_of (tunnels w1) (pool_key (hostname s) (daemon_of (daemon s))) \<noteq> None"
    by simp_all
  have "run fuel s cmd timeout w = Some (shell_result s1 (shell_string (str_items cmd)) w1)"
    unfolding run_validated [OF assms(2,3)] using assms(1,4) by simp
  also have "\<dots> = Some (Inl (SshCmdFailedException
                  (''An error occured while executing ['' @ shell_string (str_items cmd) @ ''] on [''
                     @ hostname s @ '']. Return value was '' @ code)),
                 s1\<lparr>retval := Some code\<rparr>, w1)"
    unfolding shell_result_failed [OF assms(5,6)] h by (rule refl)
  finally have r: "run fuel s cmd timeout w =
           Some (Inl (SshCmdFailedException
                  (''An error occured while executing ['' @ shell_string (str_items cmd) @ ''] on [''
                     @ hostname s @ '']. Return value was '' @ code)),
                 s1\<lparr>retval := Some code\<rparr>, w1)" .
  have o: "stdout (s1\<lparr>retval := Some code\<rparr>) = stdout s1" "stderr (s1\<lparr>retval := Some code\<rparr>) = stderr s1"
    by simp_all
  from r o reg show ?thesis
    by (intro conjI)
qed

theorem run_shell_command_failed_witness:
  "\<not> has_daemon (daemon shell_foo) \<and> check_is_list_of_strings false_cmd = Inr ()
   \<and> map_option fst (communicate 3 (shell_foo\<lparr>retval := None, stdout := [], stderr := []\<rparr>)
          (shell_string (str_items false_cmd)) search_ret PyNone boom_world) = Some (Inr ())
   \<and> map_option fst (run 3 shell_foo false_cmd PyNone boom_world)
       = Some (Inl (SshCmdFailedException
            (''An error occured while executing ['' @ shell_string (str_items false_cmd) @ ''] on [''
               @ hostname shell_foo @ '']. Return value was '' @ ''1'')))
   \<and> map_option (retval \<circ> fst \<circ> snd) (run 3 shell_foo false_cmd PyNone boom_world) = Some (Some ''1'')
   \<and> map_of (tunnels (snd (snd (the (communicate 3 (shell_foo\<lparr>retval := None, stdout := [], stderr := []\<rparr>)
          (shell_string (str_items false_cmd)) search_ret PyNone boom_world)))))
         (pool_key (hostname shell_foo) (daemon_of (daemon shell_foo))) \<noteq> None"
proof -
  let ?c = "communicate 3 (shell_foo\<lparr>retval := None, stdout := [], stderr := []\<rparr>)
              (shell_string (str_items false_cmd)) search_ret PyNone boom_world"
  have c1: "map_option fst ?c = Some (Inr ())"
    by code_simp
  then have c: "?c = Some (Inr (), fst (snd (the ?c)), snd (snd (the ?c)))"
    by (cases ?c) auto
  have rv: "retval (fst (snd (the ?c))) = Some (''RET='' @ ''1'')"
    by code_simp
  have a1: "\<not> has_daemon (daemon shell_foo)"
    by (simp add: shell_foo_def)
  have a2: "check_is_list_of_strings false_cmd = Inr ()"
    by (simp add: false_cmd_def)
  have a3: "truthy PyNone \<longrightarrow> is_IntType PyNone"
    by simp
  have a6: "''1'' \<noteq> ''0''"
    by simp
  note t = run_shell_command_failed [OF a1 a2 a3 c rv a6]
  note t1 = t [THEN conjunct1]
  note t4 = t [THEN conjunct2, THEN conjunct2, THEN conjunct2]
  have r1: "map_option fst (run 3 shell_foo false_cmd PyNone boom_world)
       = Some (Inl (SshCmdFailedException
            (''An error occured while executing ['' @ shell_string (str_items false_cmd) @ ''] on [''
               @ hostname shell_foo @ '']. Return value was '' @ ''1'')))"
    unfolding t1 by simp
  have r2: "map_option (retval \<circ> fst \<circ> snd) (run 3 shell_foo false_cmd PyNone boom_world) = Some (Some ''1'')"
    unfolding t1 by simp
  from a1 a2 c1 r1 r2 t4 show ?thesis
    by (intro conjI)
qed

text \<open>
  C5 as stated fails in one point: the exception does not carry what was captured. The
  remote command printed \<^verbatim>\<open>boom\<close> and \<^verbatim>\<open>oops\<close>; the message of the exception holds the
  command, the host and the code, and neither of the two; they are in \<open>stdout\<close> and
  \<open>stderr\<close> of the object.
\<close>

theorem run_failure_message_only:
  "map_option fst (run 3 shell_foo false_cmd PyNone boom_world)
     = Some (Inl (SshCmdFailedException
          (''An error occured while executing ['' @ shell_string [''false''] @ ''] on [foo]. Return value was 1'')))
   \<and> map_option (stdout \<circ> fst \<circ> snd) (run 3 shell_foo false_cmd PyNone boom_world)
       = Some (''boom'' @ [LF] @ ''RET=1'' @ [LF])
   \<and> map_option (stderr \<circ> fst \<circ> snd) (run 3 shell_foo false_cmd PyNone boom_world) = Some (''oops'' @ [LF])
   \<and> \<not> occurs_in ''boom''
        (''An error occured while executing ['' @ shell_string [''false''] @ ''] on [foo]. Return value was 1'')
   \<and> \<not> occurs_in ''oops''
        (''An error occured while executing ['' @ shell_string [''false''] @ ''] on [foo]. Return value was 1'')"
  by code_simp

end
